theory Spec2Isabelle
  imports Complex_Main "HOL-Library.List_Lexorder"
begin

section \<open>Strings\<close>

text \<open>
  A Python \<open>str\<close> is the list of its Unicode code points, so \<open>length\<close> is Python's
  \<open>len\<close> and the order on lists is Python's order on strings. \<open>str\<close> writes a
  literal of code points below U+0100.
\<close>

type_synonym pystr = "nat list"

definition str :: "string \<Rightarrow> pystr" where
  "str s = map of_char s"

text \<open>
  \<open>str.isspace\<close> of one character: the 29 code points Python 3 strips with
  \<open>str.strip()\<close>.
\<close>

definition py_isspace :: "nat \<Rightarrow> bool" where
  "py_isspace c =
     ((9 \<le> c \<and> c \<le> 13) \<or> (28 \<le> c \<and> c \<le> 32) \<or> c = 133 \<or> c = 160 \<or> c = 5760 \<or>
      (8192 \<le> c \<and> c \<le> 8202) \<or> c = 8232 \<or> c = 8233 \<or> c = 8239 \<or> c = 8287 \<or>
      c = 12288)"

definition strip :: "pystr \<Rightarrow> pystr" where
  "strip s = rev (dropWhile py_isspace (rev (dropWhile py_isspace s)))"

text \<open>\<open>s.split(sep)\<close> for a one-character separator: never the empty list.\<close>

fun split :: "nat \<Rightarrow> pystr \<Rightarrow> pystr list" where
  "split sep [] = [[]]"
| "split sep (c # cs) =
     (if c = sep then [] # split sep cs
      else (c # hd (split sep cs)) # tl (split sep cs))"

fun startswith :: "pystr \<Rightarrow> pystr \<Rightarrow> bool" where
  "startswith s [] = True"
| "startswith [] (p # ps) = False"
| "startswith (c # cs) (p # ps) = (c = p \<and> startswith cs ps)"

text \<open>\<open>sub in s\<close> for two strings: \<open>sub\<close> occurs in \<open>s\<close> as a contiguous run.\<close>

fun str_contains :: "pystr \<Rightarrow> pystr \<Rightarrow> bool" where
  "str_contains [] sub = (sub = [])"
| "str_contains (c # cs) sub = (startswith (c # cs) sub \<or> str_contains cs sub)"

section \<open>Python values and exceptions\<close>

text \<open>
  What \<open>json.load\<close> can return, which is also what \<open>self.lists\<close> can hold after
  \<open>_load_data\<close> has adopted a file: the declared type \<open>Dict[str, List[str]]\<close> is not
  enforced. A float is given by the rational it equals (NaN and the infinities are
  left out); a dict is its items in insertion order.
\<close>

datatype pyval =
    PNone
  | PBool bool
  | PInt int
  | PFloat rat
  | PStr pystr
  | PList "pyval list"
  | PDict "(pystr \<times> pyval) list"

type_synonym pydict = "(pystr \<times> pyval) list"

text \<open>
  The result strings, one constructor for each template of \<open>config.Messages\<close> and each
  literal of \<open>list_manager.py\<close>, with the values formatted into it.
\<close>

datatype op_kind = Creating | Adding | AddingMany | Removing | Showing | Deleting | Searching

datatype message =
    ListCreated pystr
  | ListExists pystr
  | ListNotFound pystr
  | ItemAdded pystr pystr
  | ItemExists pystr pystr
  | ItemRemoved pystr pystr
  | ItemNotFound pystr pystr
  | ListDeleted pystr
  | NoLists
  | EmptyList pystr
  | NoSearchResults pystr
  | InvalidListName int
  | InvalidItem int
  | TooManyLists int
  | TooManyItems int
  | ListNameEmpty
  | ItemEmpty
  | SearchTermEmpty
  | NoValidItems
  | WouldExceedLimit nat int
  | ErrorOccurred op_kind
  | MultiReport pystr "pystr list" "pystr list" "pystr list"
  | NoItemsProcessed
  | ListContents pystr nat "pyval list"
  | AllLists "(pystr \<times> nat) list"
  | SearchResults pystr "(pystr \<times> pystr) list"
  | HelpText int int int int

text \<open>
  The exceptions of Python and its libraries that matter here, each standing for the
  class and its subclasses as far as the repository's \<open>except\<close> clauses tell them
  apart: \<open>IOError\<close> is \<open>OSError\<close> with all its subclasses; \<open>JSONDecodeError\<close>,
  \<open>UnicodeDecodeError\<close> and \<open>UnicodeEncodeError\<close> are kept apart from the other
  \<open>ValueError\<close>s. The repository's own exceptions carry their message.
\<close>

datatype builtin_exn =
    IOError
  | JSONDecodeError
  | TypeError
  | AttributeError
  | KeyError
  | ValueError
  | RecursionError
  | UnicodeDecodeError
  | UnicodeEncodeError

datatype py_exn =
    ValidationError message
  | ListNotFoundError message
  | ListExistsError message
  | ItemNotFoundError message
  | ItemExistsError message
  | LimitExceededError message
  | DataStorageError
  | Builtin builtin_exn

fun len :: "pyval \<Rightarrow> py_exn + nat" where
  "len (PStr s) = Inr (length s)"
| "len (PList xs) = Inr (length xs)"
| "len (PDict kvs) = Inr (length kvs)"
| "len v = Inl (Builtin TypeError)"

text \<open>\<open>item in v\<close> for a pystr \<open>item\<close>.\<close>

fun py_in :: "pystr \<Rightarrow> pyval \<Rightarrow> py_exn + bool" where
  "py_in item (PList xs) = Inr (PStr item \<in> set xs)"
| "py_in item (PStr s) = Inr (str_contains s item)"
| "py_in item (PDict kvs) = Inr (item \<in> set (map fst kvs))"
| "py_in item v = Inl (Builtin TypeError)"

fun py_append :: "pyval \<Rightarrow> pystr \<Rightarrow> py_exn + pyval" where
  "py_append (PList xs) item = Inr (PList (xs @ [PStr item]))"
| "py_append v item = Inl (Builtin AttributeError)"

fun py_remove :: "pyval \<Rightarrow> pystr \<Rightarrow> py_exn + pyval" where
  "py_remove (PList xs) item =
     (if PStr item \<in> set xs then Inr (PList (remove1 (PStr item) xs)) else Inl (Builtin ValueError))"
| "py_remove v item = Inl (Builtin AttributeError)"

fun truthy :: "pyval \<Rightarrow> bool" where
  "truthy PNone = False"
| "truthy (PBool b) = b"
| "truthy (PInt i) = (i \<noteq> 0)"
| "truthy (PFloat r) = (r \<noteq> 0)"
| "truthy (PStr s) = (s \<noteq> [])"
| "truthy (PList xs) = (xs \<noteq> [])"
| "truthy (PDict kvs) = (kvs \<noteq> [])"

text \<open>The elements a \<open>for\<close> loop over the value visits.\<close>

fun py_iter :: "pyval \<Rightarrow> py_exn + pyval list" where
  "py_iter (PList xs) = Inr xs"
| "py_iter (PStr s) = Inr (map (\<lambda>c. PStr [c]) s)"
| "py_iter (PDict kvs) = Inr (map (\<lambda>kv. PStr (fst kv)) kvs)"
| "py_iter v = Inl (Builtin TypeError)"

subsection \<open>Dictionaries\<close>

text \<open>\<open>d[k] = v\<close>: an existing key keeps its place, a new key goes last.\<close>

fun dict_set :: "('k \<times> 'v) list \<Rightarrow> 'k \<Rightarrow> 'v \<Rightarrow> ('k \<times> 'v) list" where
  "dict_set [] k v = [(k, v)]"
| "dict_set ((k', v') # kvs) k v =
     (if k' = k then (k, v) # kvs else (k', v') # dict_set kvs k v)"

definition dict_get :: "('k \<times> 'v) list \<Rightarrow> 'k \<Rightarrow> py_exn + 'v" where
  "dict_get d k = (case map_of d k of None \<Rightarrow> Inl (Builtin KeyError) | Some v \<Rightarrow> Inr v)"

definition dict_del :: "('k \<times> 'v) list \<Rightarrow> 'k \<Rightarrow> py_exn + ('k \<times> 'v) list" where
  "dict_del d k =
     (if k \<in> set (map fst d) then Inr (filter (\<lambda>kv. fst kv \<noteq> k) d) else Inl (Builtin KeyError))"

section \<open>Configuration, storage and the manager\<close>

record bot_config =
  data_file :: pystr
  max_list_name_length :: int
  max_item_length :: int
  max_lists_per_user :: int
  max_items_per_list :: int
  backup_enabled :: bool

definition default_config :: bot_config where
  "default_config =
     \<lparr>data_file = str ''lists_data.json'', max_list_name_length = 50, max_item_length = 200,
      max_lists_per_user = 50, max_items_per_list = 100, backup_enabled = True\<rparr>"

text \<open>
  The file system: the text of every file that exists; the paths whose opening for
  reading raises \<open>IOError\<close>; the paths whose opening for writing raises \<open>IOError\<close>,
  the file untouched; and, for the paths that have one, the number of characters the
  file can take, a write beyond it raising \<open>IOError\<close> with the file filled up to there.
\<close>

record filesys =
  files :: "(pystr \<times> pystr) list"
  deny_read :: "pystr list"
  deny_write :: "pystr list"
  write_limit :: "(pystr \<times> nat) list"

definition path_exists :: "filesys \<Rightarrow> pystr \<Rightarrow> bool" where
  "path_exists fs p = (map_of (files fs) p \<noteq> None)"

definition read_file :: "filesys \<Rightarrow> pystr \<Rightarrow> builtin_exn + pystr" where
  "read_file fs p =
     (case map_of (files fs) p of
        None \<Rightarrow> Inl IOError
      | Some t \<Rightarrow> if p \<in> set (deny_read fs) then Inl IOError else Inr t)"

text \<open>\<open>open(p, 'w')\<close>: where it succeeds, the file exists and is empty.\<close>

definition open_w :: "filesys \<Rightarrow> pystr \<Rightarrow> builtin_exn + filesys" where
  "open_w fs p =
     (if p \<in> set (deny_write fs) then Inl IOError
      else Inr (fs\<lparr>files := dict_set (files fs) p []\<rparr>))"

text \<open>Writing \<open>t\<close> to the file just opened at \<open>p\<close>, and closing it.\<close>

definition write_text :: "filesys \<Rightarrow> pystr \<Rightarrow> pystr \<Rightarrow> (builtin_exn + unit) \<times> filesys" where
  "write_text fs p t =
     (case map_of (write_limit fs) p of
        None \<Rightarrow> (Inr (), fs\<lparr>files := dict_set (files fs) p t\<rparr>)
      | Some n \<Rightarrow>
          if length t \<le> n then (Inr (), fs\<lparr>files := dict_set (files fs) p t\<rparr>)
          else (Inl IOError, fs\<lparr>files := dict_set (files fs) p (take n t)\<rparr>))"

text \<open>\<open>shutil.copy2(src, dst)\<close>, as far as the content goes.\<close>

definition copy2 :: "filesys \<Rightarrow> pystr \<Rightarrow> pystr \<Rightarrow> (builtin_exn + unit) \<times> filesys" where
  "copy2 fs src dst =
     (case read_file fs src of
        Inl e \<Rightarrow> (Inl e, fs)
      | Inr t \<Rightarrow>
          (case open_w fs dst of
             Inl e \<Rightarrow> (Inl e, fs)
           | Inr fs1 \<Rightarrow> write_text fs1 dst t))"

text \<open>
  \<open>str.lower\<close> and the \<open>json\<close> module are not part of the repository: they are
  parameters. \<open>str_lower\<close> takes the whole string, since lowering can change its
  length. \<open>json_dump v\<close> is the text that
  \<open>json.dump(v, f, ensure_ascii=False, indent=2)\<close> passes to \<open>f.write\<close>, together with
  the exception it raises after that, if any. \<open>json_loads t\<close> is what \<open>json.load\<close>
  returns on a file of text \<open>t\<close>, or the exception it raises.
\<close>

record py_lib =
  str_lower :: "pystr \<Rightarrow> pystr"
  json_dump :: "pyval \<Rightarrow> pystr \<times> builtin_exn option"
  json_loads :: "pystr \<Rightarrow> builtin_exn + pyval"

record manager =
  config :: bot_config
  lists :: pydict

datatype log_event =
    InfoNotFound
  | WarnInvalidFormat
  | ErrorLoading builtin_exn
  | InfoBackedUp pystr
  | ErrorBackupFailed builtin_exn

section \<open>Persistence\<close>

text \<open>
  \<open>_backup_corrupted_file\<close>. \<open>stamp\<close> is the clock reading
  \<open>datetime.now(pytz.UTC).strftime('%Y%m%d_%H%M%S')\<close>. Only \<open>IOError\<close> is caught.
\<close>

definition backup_corrupted_file ::
  "pystr \<Rightarrow> manager \<Rightarrow> filesys \<Rightarrow> builtin_exn + (filesys \<times> log_event list)" where
  "backup_corrupted_file stamp m fs =
     (let df = data_file (config m) in
      if path_exists fs df then
        (let backup_name = df @ str ''.backup_'' @ stamp in
         case copy2 fs df backup_name of
           (Inr _, fs') \<Rightarrow> Inr (fs', [InfoBackedUp backup_name])
         | (Inl e, fs') \<Rightarrow> if e = IOError then Inr (fs', [ErrorBackupFailed e]) else Inl e)
      else Inr (fs, []))"

text \<open>The \<open>try\<close> block of \<open>_load_data\<close>.\<close>

definition load_data_try ::
  "py_lib \<Rightarrow> manager \<Rightarrow> filesys \<Rightarrow> builtin_exn + (manager \<times> log_event list)" where
  "load_data_try py m fs =
     (let df = data_file (config m) in
      if path_exists fs df then
        (case read_file fs df of
           Inl e \<Rightarrow> Inl e
         | Inr text \<Rightarrow>
             (case json_loads py text of
                Inl e \<Rightarrow> Inl e
              | Inr data \<Rightarrow>
                  (case data of
                     PDict kvs \<Rightarrow> Inr (m\<lparr>lists := kvs\<rparr>, [])
                   | _ \<Rightarrow> Inr (m\<lparr>lists := []\<rparr>, [WarnInvalidFormat]))))
      else Inr (m\<lparr>lists := []\<rparr>, [InfoNotFound]))"

text \<open>\<open>_load_data\<close>: \<open>except (json.JSONDecodeError, IOError)\<close>; anything else propagates.\<close>

definition load_data ::
  "py_lib \<Rightarrow> pystr \<Rightarrow> manager \<Rightarrow> filesys \<Rightarrow>
     builtin_exn + (manager \<times> filesys \<times> log_event list)" where
  "load_data py stamp m fs =
     (case load_data_try py m fs of
        Inr (m', logs) \<Rightarrow> Inr (m', fs, logs)
      | Inl e \<Rightarrow>
          if e = JSONDecodeError \<or> e = IOError then
            (case backup_corrupted_file stamp m fs of
               Inl e' \<Rightarrow> Inl e'
             | Inr (fs', logs) \<Rightarrow> Inr (m\<lparr>lists := []\<rparr>, fs', ErrorLoading e # logs))
          else Inl e)"

text \<open>\<open>ListManager.__init__\<close>: a fresh instance, loaded from storage.\<close>

definition init ::
  "py_lib \<Rightarrow> pystr \<Rightarrow> bot_config \<Rightarrow> filesys \<Rightarrow>
     builtin_exn + (manager \<times> filesys \<times> log_event list)" where
  "init py stamp cfg fs = load_data py stamp \<lparr>config = cfg, lists = []\<rparr> fs"

text \<open>
  The \<open>try\<close> block of \<open>_save_data\<close>: the backup copy, then \<open>open(data_file, 'w')\<close>,
  which empties the file, then \<open>json.dump\<close> into it.
\<close>

definition save_data_try :: "py_lib \<Rightarrow> manager \<Rightarrow> filesys \<Rightarrow> (builtin_exn + unit) \<times> filesys" where
  "save_data_try py m fs =
     (let df = data_file (config m) in
      case (if backup_enabled (config m) \<and> path_exists fs df
            then copy2 fs df (df @ str ''.backup'') else (Inr (), fs)) of
        (Inl e, fs1) \<Rightarrow> (Inl e, fs1)
      | (Inr _, fs1) \<Rightarrow>
          (case open_w fs1 df of
             Inl e \<Rightarrow> (Inl e, fs1)
           | Inr fs2 \<Rightarrow>
               (case json_dump py (PDict (lists m)) of
                  (t, raised) \<Rightarrow>
                    (case write_text fs2 df t of
                       (Inl e, fs3) \<Rightarrow> (Inl e, fs3)
                     | (Inr _, fs3) \<Rightarrow>
                         (case raised of
                            Some e \<Rightarrow> (Inl e, fs3)
                          | None \<Rightarrow> (Inr (), fs3))))))"

text \<open>
  \<open>_save_data\<close>: \<open>except IOError\<close> raises \<open>DataStorageError\<close> in its place; any other
  exception goes on as it is.
\<close>

definition save_data :: "py_lib \<Rightarrow> manager \<Rightarrow> filesys \<Rightarrow> (py_exn + unit) \<times> filesys" where
  "save_data py m fs =
     (case save_data_try py m fs of
        (Inl e, fs') \<Rightarrow> (if e = IOError then Inl DataStorageError else Inl (Builtin e), fs')
      | (Inr u, fs') \<Rightarrow> (Inr u, fs'))"

section \<open>Validation, limits and name resolution\<close>

definition validate_list_name :: "bot_config \<Rightarrow> pystr \<Rightarrow> py_exn + unit" where
  "validate_list_name cfg list_name =
     (if list_name = [] \<or> strip list_name = [] then Inl (ValidationError ListNameEmpty)
      else if int (length (strip list_name)) > max_list_name_length cfg
      then Inl (ValidationError (InvalidListName (max_list_name_length cfg)))
      else Inr ())"

definition validate_item :: "bot_config \<Rightarrow> pystr \<Rightarrow> py_exn + unit" where
  "validate_item cfg item =
     (if item = [] \<or> strip item = [] then Inl (ValidationError ItemEmpty)
      else if int (length (strip item)) > max_item_length cfg
      then Inl (ValidationError (InvalidItem (max_item_length cfg)))
      else Inr ())"

text \<open>\<open>_find_list_name\<close>: the keys are scanned in the dictionary's order.\<close>

fun find_list_name :: "py_lib \<Rightarrow> pydict \<Rightarrow> pystr \<Rightarrow> pystr option" where
  "find_list_name py [] list_name = None"
| "find_list_name py ((name, v) # rest) list_name =
     (if str_lower py name = str_lower py list_name then Some name
      else find_list_name py rest list_name)"

text \<open>
  The callers test the result with \<open>if not actual_list_name\<close> and
  \<open>if self._find_list_name(...)\<close>: \<open>None\<close> and the empty key are both false.
\<close>

fun found :: "pystr option \<Rightarrow> bool" where
  "found None = False"
| "found (Some name) = (name \<noteq> [])"

definition check_list_limit :: "manager \<Rightarrow> py_exn + unit" where
  "check_list_limit m =
     (if int (length (lists m)) \<ge> max_lists_per_user (config m)
      then Inl (LimitExceededError (TooManyLists (max_lists_per_user (config m))))
      else Inr ())"

definition check_item_limit :: "manager \<Rightarrow> pystr \<Rightarrow> py_exn + unit" where
  "check_item_limit m list_name =
     (case dict_get (lists m) list_name of
        Inl e \<Rightarrow> Inl e
      | Inr v \<Rightarrow>
          (case len v of
             Inl e \<Rightarrow> Inl e
           | Inr n \<Rightarrow>
               if int n \<ge> max_items_per_list (config m)
               then Inl (LimitExceededError (TooManyItems (max_items_per_list (config m))))
               else Inr ()))"


section \<open>The public operations\<close>

text \<open>
  An operation returns what the caller gets (a value, or the exception that crosses
  the boundary) together with the manager and the file system as it leaves them.
  Each \<open>_try\<close> function is the \<open>try\<close> block of the operation; the operation itself
  adds the \<open>except\<close> clauses.
\<close>

text \<open>
  A number as \<open>get_stats\<close> returns it: an \<open>int\<close>, or the \<open>float\<close> that the true
  division of two \<open>int\<close>s evaluates to, which is kept as the two operands.
\<close>

datatype py_number = PyInt int | TrueDiv int int

record stats =
  total_lists :: nat
  total_items :: nat
  average_items_per_list :: py_number
  largest_list_size :: nat

datatype result = Message message | Stats stats

type_synonym 'a outcome = "(py_exn + 'a) \<times> manager \<times> filesys"

text \<open>\<open>str(e)\<close> of the repository's own exceptions, which carry their message.\<close>

fun str_of :: "py_exn \<Rightarrow> message option" where
  "str_of (ValidationError msg) = Some msg"
| "str_of (ListNotFoundError msg) = Some msg"
| "str_of (ListExistsError msg) = Some msg"
| "str_of (ItemNotFoundError msg) = Some msg"
| "str_of (ItemExistsError msg) = Some msg"
| "str_of (LimitExceededError msg) = Some msg"
| "str_of e = None"

fun is_ValidationError :: "py_exn \<Rightarrow> bool" where
  "is_ValidationError (ValidationError msg) = True"
| "is_ValidationError e = False"

fun is_ListNotFoundError :: "py_exn \<Rightarrow> bool" where
  "is_ListNotFoundError (ListNotFoundError msg) = True"
| "is_ListNotFoundError e = False"

fun is_ListExistsError :: "py_exn \<Rightarrow> bool" where
  "is_ListExistsError (ListExistsError msg) = True"
| "is_ListExistsError e = False"

fun is_ItemNotFoundError :: "py_exn \<Rightarrow> bool" where
  "is_ItemNotFoundError (ItemNotFoundError msg) = True"
| "is_ItemNotFoundError e = False"

fun is_ItemExistsError :: "py_exn \<Rightarrow> bool" where
  "is_ItemExistsError (ItemExistsError msg) = True"
| "is_ItemExistsError e = False"

fun is_LimitExceededError :: "py_exn \<Rightarrow> bool" where
  "is_LimitExceededError (LimitExceededError msg) = True"
| "is_LimitExceededError e = False"

text \<open>
  \<open>except (A, B, ...) as e: return str(e)\<close> followed by
  \<open>except Exception: return "... An error occurred while ..."\<close>.
\<close>

definition handle :: "(py_exn \<Rightarrow> bool) \<Rightarrow> op_kind \<Rightarrow> message outcome \<Rightarrow> result outcome" where
  "handle expected kind r =
     (case r of
        (Inr msg, m, fs) \<Rightarrow> (Inr (Message msg), m, fs)
      | (Inl e, m, fs) \<Rightarrow>
          (case str_of e of
             Some msg \<Rightarrow> if expected e then (Inr (Message msg), m, fs)
                         else (Inr (Message (ErrorOccurred kind)), m, fs)
           | None \<Rightarrow> (Inr (Message (ErrorOccurred kind)), m, fs)))"

subsection \<open>\<open>create_list\<close>\<close>

definition create_list_try :: "py_lib \<Rightarrow> manager \<Rightarrow> filesys \<Rightarrow> pystr \<Rightarrow> message outcome" where
  "create_list_try py m fs list_name =
     (case validate_list_name (config m) list_name of
        Inl e \<Rightarrow> (Inl e, m, fs)
      | Inr _ \<Rightarrow>
     (case check_list_limit m of
        Inl e \<Rightarrow> (Inl e, m, fs)
      | Inr _ \<Rightarrow>
     (let list_name = strip list_name in
      if found (find_list_name py (lists m) list_name)
      then (Inl (ListExistsError (ListExists list_name)), m, fs)
      else
        (let m' = m\<lparr>lists := dict_set (lists m) list_name (PList [])\<rparr> in
         case save_data py m' fs of
           (Inl e, fs') \<Rightarrow> (Inl e, m', fs')
         | (Inr _, fs') \<Rightarrow> (Inr (ListCreated list_name), m', fs')))))"

definition create_list :: "py_lib \<Rightarrow> manager \<Rightarrow> filesys \<Rightarrow> pystr \<Rightarrow> result outcome" where
  "create_list py m fs list_name =
     handle (\<lambda>e. is_ValidationError e \<or> is_ListExistsError e \<or> is_LimitExceededError e)
       Creating (create_list_try py m fs list_name)"

subsection \<open>\<open>add_item\<close>\<close>

definition add_item_try ::
  "py_lib \<Rightarrow> manager \<Rightarrow> filesys \<Rightarrow> pystr \<Rightarrow> pystr \<Rightarrow> message outcome" where
  "add_item_try py m fs list_name item =
     (case validate_item (config m) item of
        Inl e \<Rightarrow> (Inl e, m, fs)
      | Inr _ \<Rightarrow>
     (case find_list_name py (lists m) list_name of
        None \<Rightarrow> (Inl (ListNotFoundError (ListNotFound list_name)), m, fs)
      | Some actual_list_name \<Rightarrow>
     if actual_list_name = [] then (Inl (ListNotFoundError (ListNotFound list_name)), m, fs)
     else
     (case check_item_limit m actual_list_name of
        Inl e \<Rightarrow> (Inl e, m, fs)
      | Inr _ \<Rightarrow>
     (let item = strip item in
      case dict_get (lists m) actual_list_name of
        Inl e \<Rightarrow> (Inl e, m, fs)
      | Inr v \<Rightarrow>
     (case py_in item v of
        Inl e \<Rightarrow> (Inl e, m, fs)
      | Inr True \<Rightarrow> (Inl (ItemExistsError (ItemExists item actual_list_name)), m, fs)
      | Inr False \<Rightarrow>
     (case py_append v item of
        Inl e \<Rightarrow> (Inl e, m, fs)
      | Inr v' \<Rightarrow>
        (let m' = m\<lparr>lists := dict_set (lists m) actual_list_name v'\<rparr> in
         case save_data py m' fs of
           (Inl e, fs') \<Rightarrow> (Inl e, m', fs')
         | (Inr _, fs') \<Rightarrow> (Inr (ItemAdded item actual_list_name), m', fs'))))))))"

definition add_item ::
  "py_lib \<Rightarrow> manager \<Rightarrow> filesys \<Rightarrow> pystr \<Rightarrow> pystr \<Rightarrow> result outcome" where
  "add_item py m fs list_name item =
     handle (\<lambda>e. is_ValidationError e \<or> is_ListNotFoundError e \<or> is_ItemExistsError e \<or>
                 is_LimitExceededError e)
       Adding (add_item_try py m fs list_name item)"

subsection \<open>\<open>add_multiple_items\<close>\<close>

text \<open>
  One round of the \<open>for\<close> loop, with its own \<open>try\<close>: the dictionary and the three
  report lists before and after.
\<close>

type_synonym loop_state = "pydict \<times> pystr list \<times> pystr list \<times> pystr list"

definition add_step :: "bot_config \<Rightarrow> pystr \<Rightarrow> pystr \<Rightarrow> loop_state \<Rightarrow> loop_state" where
  "add_step cfg actual_list_name item st =
     (case st of (d, added_items, skipped_items, failed_items) \<Rightarrow>
      (case validate_item cfg item of
         Inl e \<Rightarrow>
           (d, added_items, skipped_items,
            failed_items @ [item @ (if is_ValidationError e then (str '' (invalid)'') else (str '' (error)''))])
       | Inr _ \<Rightarrow>
      (case dict_get d actual_list_name of
         Inl e \<Rightarrow> (d, added_items, skipped_items, failed_items @ [item @ (str '' (error)'')])
       | Inr v \<Rightarrow>
      (case py_in item v of
         Inl e \<Rightarrow> (d, added_items, skipped_items, failed_items @ [item @ (str '' (error)'')])
       | Inr True \<Rightarrow> (d, added_items, skipped_items @ [item], failed_items)
       | Inr False \<Rightarrow>
      (case py_append v item of
         Inl e \<Rightarrow> (d, added_items, skipped_items, failed_items @ [item @ (str '' (error)'')])
       | Inr v' \<Rightarrow>
           (dict_set d actual_list_name v', added_items @ [item], skipped_items,
            failed_items))))))"

fun add_loop :: "bot_config \<Rightarrow> pystr \<Rightarrow> pystr list \<Rightarrow> loop_state \<Rightarrow> loop_state" where
  "add_loop cfg actual_list_name [] st = st"
| "add_loop cfg actual_list_name (item # items) st =
     add_loop cfg actual_list_name items (add_step cfg actual_list_name item st)"

text \<open>\<open>[item.strip() for item in items_text.split(',') if item.strip()]\<close>\<close>

definition split_items :: "pystr \<Rightarrow> pystr list" where
  "split_items items_text =
     map strip (filter (\<lambda>item. strip item \<noteq> []) (split (44) items_text))"

definition add_multiple_items_try ::
  "py_lib \<Rightarrow> manager \<Rightarrow> filesys \<Rightarrow> pystr \<Rightarrow> pystr \<Rightarrow> message outcome" where
  "add_multiple_items_try py m fs list_name items_text =
     (case find_list_name py (lists m) list_name of
        None \<Rightarrow> (Inl (ListNotFoundError (ListNotFound list_name)), m, fs)
      | Some actual_list_name \<Rightarrow>
     if actual_list_name = [] then (Inl (ListNotFoundError (ListNotFound list_name)), m, fs)
     else
     (let items = split_items items_text in
      if items = [] then (Inl (ValidationError NoValidItems), m, fs)
      else
     (case dict_get (lists m) actual_list_name of
        Inl e \<Rightarrow> (Inl e, m, fs)
      | Inr v \<Rightarrow>
     (case len v of
        Inl e \<Rightarrow> (Inl e, m, fs)
      | Inr n \<Rightarrow>
     if int n + int (length items) > max_items_per_list (config m)
     then (Inl (LimitExceededError
                 (WouldExceedLimit (length items) (max_items_per_list (config m)))), m, fs)
     else
     (case add_loop (config m) actual_list_name items (lists m, [], [], []) of
        (d, added_items, skipped_items, failed_items) \<Rightarrow>
     (let m' = m\<lparr>lists := d\<rparr>;
          report =
            (if added_items = [] \<and> skipped_items = [] \<and> failed_items = []
             then NoItemsProcessed
             else MultiReport actual_list_name added_items skipped_items failed_items)
      in if added_items \<noteq> [] then
           (case save_data py m' fs of
              (Inl e, fs') \<Rightarrow> (Inl e, m', fs')
            | (Inr _, fs') \<Rightarrow> (Inr report, m', fs'))
         else (Inr report, m', fs)))))))"

definition add_multiple_items ::
  "py_lib \<Rightarrow> manager \<Rightarrow> filesys \<Rightarrow> pystr \<Rightarrow> pystr \<Rightarrow> result outcome" where
  "add_multiple_items py m fs list_name items_text =
     handle (\<lambda>e. is_ValidationError e \<or> is_ListNotFoundError e \<or> is_LimitExceededError e)
       AddingMany (add_multiple_items_try py m fs list_name items_text)"


subsection \<open>\<open>remove_item\<close>\<close>

definition remove_item_try ::
  "py_lib \<Rightarrow> manager \<Rightarrow> filesys \<Rightarrow> pystr \<Rightarrow> pystr \<Rightarrow> message outcome" where
  "remove_item_try py m fs list_name item =
     (case find_list_name py (lists m) list_name of
        None \<Rightarrow> (Inl (ListNotFoundError (ListNotFound list_name)), m, fs)
      | Some actual_list_name \<Rightarrow>
     if actual_list_name = [] then (Inl (ListNotFoundError (ListNotFound list_name)), m, fs)
     else
     (let item = strip item in
      case dict_get (lists m) actual_list_name of
        Inl e \<Rightarrow> (Inl e, m, fs)
      | Inr v \<Rightarrow>
     (case py_in item v of
        Inl e \<Rightarrow> (Inl e, m, fs)
      | Inr False \<Rightarrow> (Inl (ItemNotFoundError (ItemNotFound item actual_list_name)), m, fs)
      | Inr True \<Rightarrow>
     (case py_remove v item of
        Inl e \<Rightarrow> (Inl e, m, fs)
      | Inr v' \<Rightarrow>
        (let m' = m\<lparr>lists := dict_set (lists m) actual_list_name v'\<rparr> in
         case save_data py m' fs of
           (Inl e, fs') \<Rightarrow> (Inl e, m', fs')
         | (Inr _, fs') \<Rightarrow> (Inr (ItemRemoved item actual_list_name), m', fs'))))))"

definition remove_item ::
  "py_lib \<Rightarrow> manager \<Rightarrow> filesys \<Rightarrow> pystr \<Rightarrow> pystr \<Rightarrow> result outcome" where
  "remove_item py m fs list_name item =
     handle (\<lambda>e. is_ListNotFoundError e \<or> is_ItemNotFoundError e)
       Removing (remove_item_try py m fs list_name item)"

subsection \<open>\<open>show_list\<close>\<close>

definition show_list_try :: "py_lib \<Rightarrow> manager \<Rightarrow> filesys \<Rightarrow> pystr \<Rightarrow> message outcome" where
  "show_list_try py m fs list_name =
     (case find_list_name py (lists m) list_name of
        None \<Rightarrow> (Inl (ListNotFoundError (ListNotFound list_name)), m, fs)
      | Some actual_list_name \<Rightarrow>
     if actual_list_name = [] then (Inl (ListNotFoundError (ListNotFound list_name)), m, fs)
     else
     (case dict_get (lists m) actual_list_name of
        Inl e \<Rightarrow> (Inl e, m, fs)
      | Inr items \<Rightarrow>
     if \<not> truthy items then (Inr (EmptyList actual_list_name), m, fs)
     else
     (case len items of
        Inl e \<Rightarrow> (Inl e, m, fs)
      | Inr n \<Rightarrow>
     (case py_iter items of
        Inl e \<Rightarrow> (Inl e, m, fs)
      | Inr elems \<Rightarrow> (Inr (ListContents actual_list_name n elems), m, fs)))))"

definition show_list :: "py_lib \<Rightarrow> manager \<Rightarrow> filesys \<Rightarrow> pystr \<Rightarrow> result outcome" where
  "show_list py m fs list_name =
     handle is_ListNotFoundError Showing (show_list_try py m fs list_name)"

subsection \<open>\<open>show_all_lists\<close>\<close>

text \<open>\<open>len\<close> of each value in turn, stopping at the first exception.\<close>

fun lens :: "pyval list \<Rightarrow> py_exn + nat list" where
  "lens [] = Inr []"
| "lens (v # vs) =
     (case len v of
        Inl e \<Rightarrow> Inl e
      | Inr n \<Rightarrow> (case lens vs of Inl e \<Rightarrow> Inl e | Inr ns \<Rightarrow> Inr (n # ns)))"

text \<open>
  No \<open>try\<close> here. \<open>sorted(self.lists.items())\<close> orders the pairs by key, the keys of a
  dictionary being distinct.
\<close>

definition show_all_lists :: "manager \<Rightarrow> filesys \<Rightarrow> result outcome" where
  "show_all_lists m fs =
     (if lists m = [] then (Inr (Message NoLists), m, fs)
      else
        (let sorted_lists = sort_key fst (lists m) in
         case lens (map snd sorted_lists) of
           Inl e \<Rightarrow> (Inl e, m, fs)
         | Inr ns \<Rightarrow> (Inr (Message (AllLists (zip (map fst sorted_lists) ns))), m, fs)))"

subsection \<open>\<open>delete_list\<close>\<close>

definition delete_list_try :: "py_lib \<Rightarrow> manager \<Rightarrow> filesys \<Rightarrow> pystr \<Rightarrow> message outcome" where
  "delete_list_try py m fs list_name =
     (case find_list_name py (lists m) list_name of
        None \<Rightarrow> (Inl (ListNotFoundError (ListNotFound list_name)), m, fs)
      | Some actual_list_name \<Rightarrow>
     if actual_list_name = [] then (Inl (ListNotFoundError (ListNotFound list_name)), m, fs)
     else
     (case dict_del (lists m) actual_list_name of
        Inl e \<Rightarrow> (Inl e, m, fs)
      | Inr d \<Rightarrow>
        (let m' = m\<lparr>lists := d\<rparr> in
         case save_data py m' fs of
           (Inl e, fs') \<Rightarrow> (Inl e, m', fs')
         | (Inr _, fs') \<Rightarrow> (Inr (ListDeleted actual_list_name), m', fs'))))"

definition delete_list :: "py_lib \<Rightarrow> manager \<Rightarrow> filesys \<Rightarrow> pystr \<Rightarrow> result outcome" where
  "delete_list py m fs list_name =
     handle is_ListNotFoundError Deleting (delete_list_try py m fs list_name)"

subsection \<open>\<open>search_item\<close>\<close>

text \<open>The inner loop over the items of one list; \<open>item.lower()\<close> needs a string.\<close>

fun search_items :: "py_lib \<Rightarrow> pystr \<Rightarrow> pystr \<Rightarrow> pyval list \<Rightarrow> py_exn + (pystr \<times> pystr) list" where
  "search_items py term_lower list_name [] = Inr []"
| "search_items py term_lower list_name (PStr item # rest) =
     (case search_items py term_lower list_name rest of
        Inl e \<Rightarrow> Inl e
      | Inr results \<Rightarrow>
          Inr (if str_contains (str_lower py item) term_lower then (list_name, item) # results
               else results))"
| "search_items py term_lower list_name (v # rest) = Inl (Builtin AttributeError)"

fun search_lists :: "py_lib \<Rightarrow> pystr \<Rightarrow> pydict \<Rightarrow> py_exn + (pystr \<times> pystr) list" where
  "search_lists py term_lower [] = Inr []"
| "search_lists py term_lower ((list_name, items) # rest) =
     (case py_iter items of
        Inl e \<Rightarrow> Inl e
      | Inr elems \<Rightarrow>
     (case search_items py term_lower list_name elems of
        Inl e \<Rightarrow> Inl e
      | Inr here \<Rightarrow>
     (case search_lists py term_lower rest of
        Inl e \<Rightarrow> Inl e
      | Inr results \<Rightarrow> Inr (here @ results))))"

definition search_item_try :: "py_lib \<Rightarrow> manager \<Rightarrow> filesys \<Rightarrow> pystr \<Rightarrow> message outcome" where
  "search_item_try py m fs search_term =
     (if search_term = [] \<or> strip search_term = []
      then (Inl (ValidationError SearchTermEmpty), m, fs)
      else
        (let search_term = strip search_term in
         case search_lists py (str_lower py search_term) (lists m) of
           Inl e \<Rightarrow> (Inl e, m, fs)
         | Inr results \<Rightarrow>
             if results = [] then (Inr (NoSearchResults search_term), m, fs)
             else (Inr (SearchResults search_term results), m, fs)))"

definition search_item :: "py_lib \<Rightarrow> manager \<Rightarrow> filesys \<Rightarrow> pystr \<Rightarrow> result outcome" where
  "search_item py m fs search_term =
     handle is_ValidationError Searching (search_item_try py m fs search_term)"

subsection \<open>\<open>get_stats\<close> and \<open>get_help\<close>\<close>

text \<open>No \<open>try\<close> here either; the result is a dictionary of numbers, not a string.\<close>

definition get_stats :: "manager \<Rightarrow> filesys \<Rightarrow> result outcome" where
  "get_stats m fs =
     (case lens (map snd (lists m)) of
        Inl e \<Rightarrow> (Inl e, m, fs)
      | Inr ns \<Rightarrow>
          (Inr (Stats
             \<lparr>total_lists = length (lists m),
              total_items = sum_list ns,
              average_items_per_list =
                (if lists m \<noteq> [] then TrueDiv (int (sum_list ns)) (int (length (lists m)))
                 else PyInt 0),
              largest_list_size = (if lists m \<noteq> [] then Max (set ns) else 0)\<rparr>), m, fs))"

definition get_help :: "manager \<Rightarrow> filesys \<Rightarrow> result outcome" where
  "get_help m fs =
     (Inr (Message (HelpText (max_lists_per_user (config m)) (max_items_per_list (config m))
        (max_list_name_length (config m)) (max_item_length (config m)))), m, fs)"


section \<open>Reference definitions and examples\<close>

text \<open>
  The resolution algorithm in the words of the specification: the first stored key
  whose lowercased form equals the lowercased, trimmed input.
\<close>

definition resolve_spec :: "py_lib \<Rightarrow> pydict \<Rightarrow> pystr \<Rightarrow> pystr option" where
  "resolve_spec py d n =
     List.find (\<lambda>name. str_lower py name = str_lower py (strip n)) (map fst d)"

text \<open>
  A stand-in for \<open>str.lower\<close>, which it agrees with on text made of ASCII, Latin-1
  and U+0130, the capital I with a dot above, whose lowercase form is the two code
  points U+0069 U+0307.
\<close>

definition sample_lower_char :: "nat \<Rightarrow> pystr" where
  "sample_lower_char c =
     (if (65 \<le> c \<and> c \<le> 90) \<or> (192 \<le> c \<and> c \<le> 214) \<or> (216 \<le> c \<and> c \<le> 222) then [c + 32]
      else if c = 304 then [105, 775]
      else [c])"

definition sample_lower :: "pystr \<Rightarrow> pystr" where
  "sample_lower s = concat (map sample_lower_char s)"

text \<open>
  A stand-in for the \<open>json\<close> module on the few documents the examples below use: the
  text of each and the value it parses to. One more text, a hundred thousand opening
  brackets, is nested too deeply for \<open>json.load\<close>, which raises \<open>RecursionError\<close>.
\<close>

definition sample_docs :: "(pystr \<times> pyval) list" where
  \<open>sample_docs =
     [(str ''{}'', PDict []),
      (str ''{"groceries": []}'', PDict [(str ''groceries'', PList [])]),
      (str ''{"groceries": ["milk"]}'', PDict [(str ''groceries'', PList [PStr (str ''milk'')])]),
      (str ''{"a": 1}'', PDict [(str ''a'', PInt 1)]),
      (str ''[1, 2]'', PList [PInt 1, PInt 2])]\<close>

definition deeply_nested :: pystr where
  "deeply_nested = replicate 100000 91"

definition sample_py :: py_lib where
  "sample_py =
     \<lparr>str_lower = sample_lower,
      json_dump = (\<lambda>v. (case List.find (\<lambda>d. snd d = v) sample_docs of
                           Some d \<Rightarrow> fst d | None \<Rightarrow> str ''null'', None)),
      json_loads = (\<lambda>t. case map_of sample_docs t of
                          Some v \<Rightarrow> Inr v
                        | None \<Rightarrow> if t = deeply_nested then Inl RecursionError
                                  else Inl JSONDecodeError)\<rparr>"

definition no_files :: filesys where
  "no_files = \<lparr>files = [], deny_read = [], deny_write = [], write_limit = []\<rparr>"

definition groceries :: manager where
  "groceries = \<lparr>config = default_config, lists = [(str ''groceries'', PList [])]\<rparr>"

definition malformed_values :: filesys where
  \<open>malformed_values =
     \<lparr>files = [(str ''lists_data.json'', str ''{"a": 1}'')],
      deny_read = [], deny_write = [], write_limit = []\<rparr>\<close>

definition top_level_list :: filesys where
  \<open>top_level_list =
     \<lparr>files = [(str ''lists_data.json'', str ''[1, 2]'')],
      deny_read = [], deny_write = [], write_limit = []\<rparr>\<close>

definition corrupted :: filesys where
  \<open>corrupted =
     \<lparr>files = [(str ''lists_data.json'', str ''{"groceries": ['')],
      deny_read = [], deny_write = [], write_limit = []\<rparr>\<close>

definition too_deep :: filesys where
  "too_deep =
     \<lparr>files = [(str ''lists_data.json'', deeply_nested)],
      deny_read = [], deny_write = [], write_limit = []\<rparr>"

definition with_milk :: manager where
  "with_milk =
     \<lparr>config = default_config, lists = [(str ''groceries'', PList [PStr (str ''milk'')])]\<rparr>"

definition with_milk_stored :: filesys where
  \<open>with_milk_stored =
     \<lparr>files = [(str ''lists_data.json'', str ''{"groceries": ["milk"]}'')],
      deny_read = [], deny_write = [], write_limit = []\<rparr>\<close>

text \<open>
  What every mutating operation does once its checks have passed and the change is in
  memory: \<open>self._save_data()\<close>, then the success message, or the generic message of
  the operation's \<open>except Exception\<close> clause when the save raised. The manager is the
  changed one in both cases.
\<close>

definition persist :: "py_lib \<Rightarrow> manager \<Rightarrow> filesys \<Rightarrow> message \<Rightarrow> op_kind \<Rightarrow> result outcome" where
  "persist py m' fs success kind =
     (case save_data py m' fs of
        (Inr _, fs') \<Rightarrow> (Inr (Message success), m', fs')
      | (Inl _, fs') \<Rightarrow> (Inr (Message (ErrorOccurred kind)), m', fs'))"

text \<open>
  The saved list \<open>groceries\<close> on a disk that is full: the data file cannot take a
  single character more. After \<open>add_item\<close> the backup copy holds the old text and the
  data file is empty.
\<close>

definition full_disk :: filesys where
  \<open>full_disk =
     \<lparr>files = [(str ''lists_data.json'', str ''{"groceries": []}'')],
      deny_read = [], deny_write = [], write_limit = [(str ''lists_data.json'', 0)]\<rparr>\<close>

definition full_disk_after :: filesys where
  \<open>full_disk_after =
     \<lparr>files = [(str ''lists_data.json'', []),
               (str ''lists_data.json.backup'', str ''{"groceries": []}'')],
      deny_read = [], deny_write = [], write_limit = [(str ''lists_data.json'', 0)]\<rparr>\<close>

definition two_lists :: manager where
  "two_lists =
     \<lparr>config = default_config,
      lists = [(str ''groceries'', PList [PStr (str ''milk'')]),
               (str ''todo'', PList [PStr (str ''call'')])]\<rparr>"

text \<open>
  The type \<open>self.lists\<close> is declared with, \<open>Dict[str, List[str]]\<close>: every value is a
  list of strings.
\<close>

fun is_str :: "pyval \<Rightarrow> bool" where
  "is_str (PStr s) = True"
| "is_str v = False"

fun is_str_list :: "pyval \<Rightarrow> bool" where
  "is_str_list (PList xs) = list_all is_str xs"
| "is_str_list v = False"

definition declared_type :: "pydict \<Rightarrow> bool" where
  "declared_type d = list_all (\<lambda>kv. is_str_list (snd kv)) d"

definition empty_manager :: manager where
  "empty_manager = \<lparr>config = default_config, lists = []\<rparr>"

definition adopted_malformed :: manager where
  "adopted_malformed = \<lparr>config = default_config, lists = [(str ''a'', PInt 1)]\<rparr>"

text \<open>
  A session: the calls a front end makes on one manager, each with the file system
  as it is at that moment (other programs may change it in between).
\<close>

datatype call =
    CreateList pystr
  | AddItem pystr pystr
  | AddMultipleItems pystr pystr
  | RemoveItem pystr pystr
  | ShowList pystr
  | ShowAllLists
  | DeleteList pystr
  | SearchItem pystr
  | GetStats
  | GetHelp

fun perform :: "py_lib \<Rightarrow> manager \<Rightarrow> filesys \<Rightarrow> call \<Rightarrow> result outcome" where
  "perform py m fs (CreateList n) = create_list py m fs n"
| "perform py m fs (AddItem n x) = add_item py m fs n x"
| "perform py m fs (AddMultipleItems n t) = add_multiple_items py m fs n t"
| "perform py m fs (RemoveItem n x) = remove_item py m fs n x"
| "perform py m fs (ShowList n) = show_list py m fs n"
| "perform py m fs ShowAllLists = show_all_lists m fs"
| "perform py m fs (DeleteList n) = delete_list py m fs n"
| "perform py m fs (SearchItem t) = search_item py m fs t"
| "perform py m fs GetStats = get_stats m fs"
| "perform py m fs GetHelp = get_help m fs"

fun run :: "py_lib \<Rightarrow> manager \<Rightarrow> (call \<times> filesys) list \<Rightarrow> manager" where
  "run py m [] = m"
| "run py m ((c, fs) # rest) = run py (fst (snd (perform py m fs c))) rest"

text \<open>
  What the public operations keep true of the collection: no two keys equal up to
  letter case, no empty key, every value a list of strings that are non-empty and
  trimmed.
\<close>

fun stored_item :: "pyval \<Rightarrow> bool" where
  "stored_item (PStr x) = (x \<noteq> [] \<and> strip x = x)"
| "stored_item v = False"

fun stored_list :: "pyval \<Rightarrow> bool" where
  "stored_list (PList es) = list_all stored_item es"
| "stored_list v = False"

definition well_formed :: "py_lib \<Rightarrow> pydict \<Rightarrow> bool" where
  "well_formed py d =
     (distinct (map (\<lambda>kv. str_lower py (fst kv)) d) \<and>
      list_all (\<lambda>kv. fst kv \<noteq> [] \<and> stored_list (snd kv)) d)"

definition one_list_config :: bot_config where
  "one_list_config = default_config\<lparr>max_lists_per_user := 1\<rparr>"

definition todo_session :: "(call \<times> filesys) list" where
  "todo_session =
     [(CreateList (str ''todo''), no_files), (AddItem (str ''todo'') (str ''call''), no_files)]"

definition todo_manager :: manager where
  "todo_manager =
     \<lparr>config = default_config, lists = [(str ''todo'', PList [PStr (str ''call'')])]\<rparr>"

definition todo_and_milk :: manager where
  "todo_and_milk =
     \<lparr>config = default_config,
      lists = [(str ''todo'', PList [PStr (str ''call'')]), (str ''milk'', PList [])]\<rparr>"

definition milk_only :: manager where
  "milk_only = \<lparr>config = one_list_config, lists = [(str ''milk'', PList [])]\<rparr>"

text \<open>
  Two names that differ in letter case only: twenty-six capital I with a dot above,
  and the fifty-two code points of their lowercase form.
\<close>

definition dotted_capitals :: pystr where
  "dotted_capitals = replicate 26 304"

definition dotted_smalls :: pystr where
  "dotted_smalls = concat (replicate 26 [105, 775])"

definition dotted_only :: manager where
  "dotted_only = \<lparr>config = default_config, lists = [(dotted_capitals, PList [])]\<rparr>"

text \<open>
  What happens to the candidate at position \<open>i\<close> of a batch, in the words of the
  specification: too long, it fails; equal to an item the list held before the call or
  to an earlier candidate of the batch, it is skipped; otherwise it is added.
  \<open>picked\<close> collects the candidates with a given verdict, in their order.
\<close>

datatype verdict = Added | Skipped | Failed

definition classify :: "bot_config \<Rightarrow> pyval list \<Rightarrow> pystr list \<Rightarrow> nat \<Rightarrow> verdict" where
  "classify cfg xs cs i =
     (if int (length (cs ! i)) > max_item_length cfg then Failed
      else if PStr (cs ! i) \<in> set xs \<or> cs ! i \<in> set (take i cs) then Skipped
      else Added)"

definition picked :: "bot_config \<Rightarrow> pyval list \<Rightarrow> pystr list \<Rightarrow> verdict \<Rightarrow> pystr list" where
  "picked cfg xs cs v =
     map (\<lambda>i. cs ! i) (filter (\<lambda>i. classify cfg xs cs i = v) [0..<length cs])"

section \<open>Shared lemmas\<close>

lemma str_inject [simp]: "str a = str b \<longleftrightarrow> a = b"
  by (simp add: str_def inj_map_eq_map inj_on_def)

lemma str_eq_Nil [simp]: "str a = [] \<longleftrightarrow> a = []"
  by (simp add: str_def)

lemma str_append: "str (a @ b) = str a @ str b"
  by (simp add: str_def)

lemma find_list_name_find:
  "find_list_name py d n
     = List.find (\<lambda>name. str_lower py name = str_lower py n) (map fst d)"
  by (induction d) auto

lemma not_found_cases: "\<not> found r \<longleftrightarrow> r = None \<or> r = Some []"
  by (cases r) auto

section \<open>Name resolution\<close>

text \<open>
  C2, as the code has it. \<open>_find_list_name\<close> returns the first stored key whose
  lowercased form equals the lowercased input as it was passed, without trimming it,
  and \<open>None\<close> when there is none. Where that result is \<open>None\<close> or the empty key,
  \<open>add_multiple_items\<close>, \<open>remove_item\<close>, \<open>show_list\<close> and \<open>delete_list\<close> answer
  list-not-found with the name as passed and change nothing, and so does \<open>add_item\<close>
  once the item has passed validation.
\<close>

theorem resolve_untrimmed:
  "find_list_name py (lists m) n
     = List.find (\<lambda>name. str_lower py name = str_lower py n) (map fst (lists m)) \<and>
   (\<not> found (find_list_name py (lists m) n) \<longrightarrow>
      add_multiple_items py m fs n text = (Inr (Message (ListNotFound n)), m, fs) \<and>
      remove_item py m fs n x = (Inr (Message (ListNotFound n)), m, fs) \<and>
      show_list py m fs n = (Inr (Message (ListNotFound n)), m, fs) \<and>
      delete_list py m fs n = (Inr (Message (ListNotFound n)), m, fs) \<and>
      (validate_item (config m) x = Inr () \<longrightarrow>
         add_item py m fs n x = (Inr (Message (ListNotFound n)), m, fs)))"
proof (intro conjI impI)
  show "find_list_name py (lists m) n
          = List.find (\<lambda>name. str_lower py name = str_lower py n) (map fst (lists m))"
    by (rule find_list_name_find)
next
  assume nf: "\<not> found (find_list_name py (lists m) n)"
  then have c: "find_list_name py (lists m) n = None \<or> find_list_name py (lists m) n = Some []"
    by (simp add: not_found_cases)
  from c show "add_multiple_items py m fs n text = (Inr (Message (ListNotFound n)), m, fs)"
    by (auto simp: add_multiple_items_def add_multiple_items_try_def handle_def)
  from c show "remove_item py m fs n x = (Inr (Message (ListNotFound n)), m, fs)"
    by (auto simp: remove_item_def remove_item_try_def handle_def)
  from c show "show_list py m fs n = (Inr (Message (ListNotFound n)), m, fs)"
    by (auto simp: show_list_def show_list_try_def handle_def)
  from c show "delete_list py m fs n = (Inr (Message (ListNotFound n)), m, fs)"
    by (auto simp: delete_list_def delete_list_try_def handle_def)
  assume "validate_item (config m) x = Inr ()"
  with c show "add_item py m fs n x = (Inr (Message (ListNotFound n)), m, fs)"
    by (auto simp: add_item_def add_item_try_def handle_def)
qed

text \<open>
  The list \<open>groceries\<close> exists; the name with a blank on each side does not resolve
  to it, and adding to it or showing it under that name is answered list-not-found.
\<close>

theorem resolve_untrimmed_witness:
  "\<not> found (find_list_name sample_py (lists groceries) (str '' groceries '')) \<and>
   validate_item (config groceries) (str ''milk'') = Inr () \<and>
   add_item sample_py groceries no_files (str '' groceries '') (str ''milk'')
     = (Inr (Message (ListNotFound (str '' groceries ''))), groceries, no_files) \<and>
   show_list sample_py groceries no_files (str '' groceries '')
     = (Inr (Message (ListNotFound (str '' groceries ''))), groceries, no_files)"
proof -
  have nf: "\<not> found (find_list_name sample_py (lists groceries) (str '' groceries ''))"
    by (simp add: groceries_def sample_py_def sample_lower_def sample_lower_char_def str_def)
  have v: "validate_item (config groceries) (str ''milk'') = Inr ()"
    by (simp add: groceries_def default_config_def validate_item_def strip_def py_isspace_def
        str_def)
  from nf v
    resolve_untrimmed
      [of sample_py groceries "str '' groceries ''" no_files _ "str ''milk''"]
  show ?thesis by blast
qed

text \<open>
  C2 as stated fails: the stored key \<open>groceries\<close> equals the trimmed, lowercased
  input, and the resolution reports not-found.
\<close>

theorem resolve_trimmed_counterexample:
  "str_lower sample_py (str ''groceries'')
     = str_lower sample_py (strip (str '' groceries '')) \<and>
   resolve_spec sample_py [(str ''groceries'', PList [])] (str '' groceries '')
     = Some (str ''groceries'') \<and>
   find_list_name sample_py [(str ''groceries'', PList [])] (str '' groceries '') = None"
  by (simp add: resolve_spec_def strip_def py_isspace_def sample_py_def sample_lower_def
      sample_lower_char_def str_def)

section \<open>Loading\<close>

lemma map_of_dict_set: "map_of (dict_set d k v) = (map_of d)(k \<mapsto> v)"
  by (induction d) (auto simp: fun_eq_iff)

lemma keys_dict_set:
  "map fst (dict_set d k v) = (if k \<in> set (map fst d) then map fst d else map fst d @ [k])"
  by (induction d) force+

lemma init_parsed:
  assumes "read_file fs (data_file cfg) = Inr text"
    and "json_loads py text = Inr data"
  shows "init py stamp cfg fs =
           (case data of
              PDict kvs \<Rightarrow> Inr (\<lparr>config = cfg, lists = kvs\<rparr>, fs, [])
            | _ \<Rightarrow> Inr (\<lparr>config = cfg, lists = []\<rparr>, fs, [WarnInvalidFormat]))"
proof -
  from assms(1) have "path_exists fs (data_file cfg)"
    by (auto simp: read_file_def path_exists_def split: option.splits)
  with assms show ?thesis
    by (cases data) (simp_all add: init_def load_data_def load_data_try_def)
qed

text \<open>
  C3 as stated fails: the file holds a mapping whose value is a number, and the fresh
  instance adopts it, with no warning.
\<close>

theorem load_adopts_counterexample:
  "init sample_py (str ''20260101_120000'') default_config malformed_values
     = Inr (\<lparr>config = default_config, lists = [(str ''a'', PInt 1)]\<rparr>, malformed_values, [])"
  by (simp add: init_def load_data_def load_data_try_def path_exists_def read_file_def
      malformed_values_def default_config_def sample_py_def sample_docs_def)

text \<open>
  C3, as the code has it. When the storage file is read and parses, \<open>_load_data\<close>
  looks at the top-level value only: anything but a mapping is answered with a warning
  and an empty collection, and a mapping is adopted as it is, whatever its values,
  with no warning. The file system is left as it was.
\<close>

theorem load_checks_top_level_only:
  assumes "read_file fs (data_file cfg) = Inr text"
    and "json_loads py text = Inr data"
  shows "init py stamp cfg fs =
           (case data of
              PDict kvs \<Rightarrow> Inr (\<lparr>config = cfg, lists = kvs\<rparr>, fs, [])
            | _ \<Rightarrow> Inr (\<lparr>config = cfg, lists = []\<rparr>, fs, [WarnInvalidFormat]))"
  using assms by (rule init_parsed)

theorem load_checks_top_level_only_witness:
  "read_file top_level_list (data_file default_config) = Inr (str ''[1, 2]'') \<and>
   json_loads sample_py (str ''[1, 2]'') = Inr (PList [PInt 1, PInt 2]) \<and>
   init sample_py (str ''20260101_120000'') default_config top_level_list
     = Inr (\<lparr>config = default_config, lists = []\<rparr>, top_level_list, [WarnInvalidFormat])"
proof -
  have r: "read_file top_level_list (data_file default_config) = Inr (str ''[1, 2]'')"
    by (simp add: read_file_def top_level_list_def default_config_def)
  have p: "json_loads sample_py (str ''[1, 2]'') = Inr (PList [PInt 1, PInt 2])"
    by (simp add: sample_py_def sample_docs_def)
  from load_checks_top_level_only [OF r p, of "str ''20260101_120000''"] r p
  show ?thesis by simp
qed

subsection \<open>Corrupted files\<close>

lemma copy2_cases:
  assumes "read_file fs src = Inr text"
  shows "copy2 fs src dst =
           (if dst \<in> set (deny_write fs) then (Inl IOError, fs)
            else case map_of (write_limit fs) dst of
                   None \<Rightarrow> (Inr (), fs\<lparr>files := dict_set (files fs) dst text\<rparr>)
                 | Some n \<Rightarrow>
                     if length text \<le> n
                     then (Inr (), fs\<lparr>files := dict_set (files fs) dst text\<rparr>)
                     else (Inl IOError, fs\<lparr>files := dict_set (files fs) dst (take n text)\<rparr>))"
proof -
  have twice: "dict_set (dict_set d k v) k v' = dict_set d k v'" for d :: "(pystr \<times> pystr) list"
    and k v v'
    by (induction d) auto
  from assms show ?thesis
    by (simp add: copy2_def open_w_def write_text_def twice split: option.splits)
qed

lemma deeply_nested_unlisted: "map_of sample_docs deeply_nested = None"
proof -
  have "\<forall>kv \<in> set sample_docs. length (fst kv) < 100000"
    by (simp add: sample_docs_def str_def)
  moreover have "length deeply_nested = 100000"
    by (simp add: deeply_nested_def)
  ultimately have "deeply_nested \<notin> fst ` set sample_docs"
    by force
  then show ?thesis by (simp add: map_of_eq_None_iff)
qed

text \<open>
  C5 as stated fails: the file holds text that does not parse at all, a hundred
  thousand opening brackets; \<open>json.load\<close> raises \<open>RecursionError\<close>, which
  \<open>_load_data\<close> does not catch, and the constructor raises it.
\<close>

theorem load_raises_counterexample:
  "read_file too_deep (data_file default_config) = Inr deeply_nested \<and>
   json_loads sample_py deeply_nested = Inl RecursionError \<and>
   init sample_py (str ''20260101_120000'') default_config too_deep = Inl RecursionError"
  by (simp add: init_def load_data_def load_data_try_def path_exists_def read_file_def
      too_deep_def default_config_def sample_py_def deeply_nested_unlisted)

text \<open>
  C5, as the code has it. When the storage file is read and \<open>json.load\<close> raises
  \<open>JSONDecodeError\<close>, the fresh instance comes up with an empty collection and the
  bad file still in place. If the copy to \<open>data_file + ".backup_" + stamp\<close> can be
  written, that path then holds the bad text and the copy is logged. If that path
  cannot be opened for writing, the file system is as before, and if the write breaks
  off, the path holds the part of the bad text that was written; the failure is
  logged in both cases. No exception leaves \<open>_load_data\<close>.
\<close>

theorem load_backs_up_corrupted:
  assumes "read_file fs (data_file cfg) = Inr text"
    and "json_loads py text = Inl JSONDecodeError"
  shows "\<exists>fs' logs.
           init py stamp cfg fs = Inr (\<lparr>config = cfg, lists = []\<rparr>, fs', logs) \<and>
           map_of (files fs') (data_file cfg) = Some text \<and>
           (if data_file cfg @ str ''.backup_'' @ stamp \<in> set (deny_write fs)
            then fs' = fs \<and> logs = [ErrorLoading JSONDecodeError, ErrorBackupFailed IOError]
            else case map_of (write_limit fs) (data_file cfg @ str ''.backup_'' @ stamp) of
                   None \<Rightarrow>
                     map_of (files fs') (data_file cfg @ str ''.backup_'' @ stamp) = Some text \<and>
                     logs = [ErrorLoading JSONDecodeError,
                             InfoBackedUp (data_file cfg @ str ''.backup_'' @ stamp)]
                 | Some n \<Rightarrow>
                     if length text \<le> n
                     then map_of (files fs') (data_file cfg @ str ''.backup_'' @ stamp)
                            = Some text \<and>
                          logs = [ErrorLoading JSONDecodeError,
                                  InfoBackedUp (data_file cfg @ str ''.backup_'' @ stamp)]
                     else map_of (files fs') (data_file cfg @ str ''.backup_'' @ stamp)
                            = Some (take n text) \<and>
                          logs = [ErrorLoading JSONDecodeError, ErrorBackupFailed IOError])"
proof -
  let ?df = "data_file cfg"
  let ?bk = "?df @ str ''.backup_'' @ stamp"
  let ?m = "\<lparr>config = cfg, lists = []\<rparr>"
  from assms(1) have ex: "path_exists fs ?df" and content: "map_of (files fs) ?df = Some text"
    by (auto simp: read_file_def path_exists_def split: option.splits if_splits)
  from assms ex have t: "load_data_try py ?m fs = Inl JSONDecodeError"
    by (simp add: load_data_try_def)
  have differs: "?bk \<noteq> ?df" by simp
  note copy = copy2_cases [OF assms(1), of ?bk]
  show ?thesis
  proof (cases "?bk \<in> set (deny_write fs)")
    case True
    with copy ex have "backup_corrupted_file stamp ?m fs = Inr (fs, [ErrorBackupFailed IOError])"
      by (simp add: backup_corrupted_file_def Let_def)
    with t True content show ?thesis
      by (simp add: init_def load_data_def)
  next
    case False
    show ?thesis
    proof (cases "case map_of (write_limit fs) ?bk of None \<Rightarrow> True | Some n \<Rightarrow> length text \<le> n")
      case True
      with False copy ex have "backup_corrupted_file stamp ?m fs
            = Inr (fs\<lparr>files := dict_set (files fs) ?bk text\<rparr>, [InfoBackedUp ?bk])"
        by (simp add: backup_corrupted_file_def Let_def split: option.splits)
      with t False True content differs show ?thesis
        by (simp add: init_def load_data_def map_of_dict_set split: option.splits)
    next
      case no: False
      then obtain n where n: "map_of (write_limit fs) ?bk = Some n" "\<not> length text \<le> n"
        by (auto split: option.splits)
      with False copy ex have "backup_corrupted_file stamp ?m fs
            = Inr (fs\<lparr>files := dict_set (files fs) ?bk (take n text)\<rparr>,
                   [ErrorBackupFailed IOError])"
        by (simp add: backup_corrupted_file_def Let_def)
      with t False n content differs show ?thesis
        by (simp add: init_def load_data_def map_of_dict_set)
    qed
  qed
qed

theorem load_backs_up_corrupted_witness:
  \<open>read_file corrupted (data_file default_config) = Inr (str ''{"groceries": ['') \<and>
   json_loads sample_py (str ''{"groceries": ['') = Inl JSONDecodeError \<and>
   (\<exists>fs' logs.
      init sample_py (str ''20260101_120000'') default_config corrupted
        = Inr (\<lparr>config = default_config, lists = []\<rparr>, fs', logs) \<and>
      map_of (files fs') (str ''lists_data.json.backup_20260101_120000'')
        = Some (str ''{"groceries": [''))\<close>
proof -
  have r: \<open>read_file corrupted (data_file default_config) = Inr (str ''{"groceries": ['')\<close>
    by (simp add: read_file_def corrupted_def default_config_def)
  have "length (str ''{\"groceries\": ['') \<noteq> length deeply_nested"
    by (simp add: deeply_nested_def str_def)
  then have "str ''{\"groceries\": ['' \<noteq> deeply_nested" by auto
  then have p: \<open>json_loads sample_py (str ''{"groceries": ['') = Inl JSONDecodeError\<close>
    by (simp add: sample_py_def sample_docs_def)
  have w: "data_file default_config @ str ''.backup_'' @ str ''20260101_120000''
             \<notin> set (deny_write corrupted)"
    and l: "map_of (write_limit corrupted)
              (data_file default_config @ str ''.backup_'' @ str ''20260101_120000'') = None"
    by (simp_all add: corrupted_def)
  have n: "data_file default_config @ str ''.backup_'' @ str ''20260101_120000''
             = str ''lists_data.json.backup_20260101_120000''"
    by (simp add: default_config_def str_append [symmetric])
  from load_backs_up_corrupted [OF r p, of "str ''20260101_120000''"] w l r p
  show ?thesis unfolding n by auto
qed

section \<open>Saving\<close>

lemma dict_set_twice: "dict_set (dict_set d k v) k v' = dict_set d k v'"
  by (induction d) auto

lemma copy2_frame:
  assumes "copy2 fs src dst = (r, fs1)"
  shows "deny_read fs1 = deny_read fs" and "deny_write fs1 = deny_write fs"
    and "write_limit fs1 = write_limit fs"
    and "p \<noteq> dst \<Longrightarrow> map_of (files fs1) p = map_of (files fs) p"
  using assms
  by (auto simp: copy2_def open_w_def write_text_def map_of_dict_set
      split: sum.splits option.splits if_splits)

text \<open>
  What \<open>_save_data\<close> leaves behind, whatever the backup copy did before.
\<close>

lemma save_data_try_cases:
  assumes "save_data_try py m fs = (r, fs')"
  shows "deny_read fs' = deny_read fs \<and>
         (r = Inr () \<and> map_of (files fs') (data_file (config m))
             = Some (fst (json_dump py (PDict (lists m)))) \<or>
          (\<exists>e. r = Inl e) \<and>
            (map_of (files fs') (data_file (config m)) = map_of (files fs) (data_file (config m)) \<or>
             (\<exists>k. map_of (files fs') (data_file (config m))
                    = Some (take k (fst (json_dump py (PDict (lists m))))))))"
proof -
  let ?df = "data_file (config m)"
  let ?bk = "data_file (config m) @ str ''.backup''"
  obtain b fs1 where b: "(if backup_enabled (config m) \<and> path_exists fs ?df
          then copy2 fs ?df ?bk else (Inr (), fs)) = (b, fs1)"
    by (cases "if backup_enabled (config m) \<and> path_exists fs ?df
          then copy2 fs ?df ?bk else (Inr (), fs)") auto
  have differs: "?df \<noteq> ?bk" by (simp add: str_def)
  from b have frame: "deny_read fs1 = deny_read fs"
    "map_of (files fs1) ?df = map_of (files fs) ?df"
    using copy2_frame(1) [where dst = ?bk and fs = fs and src = ?df and r = b and ?fs1.0 = fs1] copy2_frame(4) [where p = ?df and dst = ?bk and fs = fs and src = ?df and r = b and ?fs1.0 = fs1] differs
    by (auto split: if_splits)
  obtain t raised where j: "json_dump py (PDict (lists m)) = (t, raised)"
    by (cases "json_dump py (PDict (lists m))") auto
  have whole: "\<not> (\<forall>k. t \<noteq> take k t)" by (metis order_refl take_all)
  have empty: "\<not> (\<forall>k. [] \<noteq> take k t)" by (metis take_0)
  from assms b j frame show ?thesis
    by (auto simp: save_data_try_def open_w_def write_text_def
        map_of_dict_set dict_set_twice Let_def whole empty
        split: sum.splits option.splits if_splits prod.splits)
qed

lemma save_data_error:
  assumes "save_data py m fs = (Inl e, fs')"
  shows "str_of e = None"
    and "map_of (files fs') (data_file (config m)) = map_of (files fs) (data_file (config m)) \<or>
         (\<exists>k. map_of (files fs') (data_file (config m))
                = Some (take k (fst (json_dump py (PDict (lists m))))))"
proof -
  obtain r where r: "save_data_try py m fs = (r, fs')"
    using assms by (cases "save_data_try py m fs") (auto simp: save_data_def split: sum.splits)
  with assms have "\<exists>b. r = Inl b"
    by (auto simp: save_data_def split: sum.splits)
  with save_data_try_cases [OF r]
  show "map_of (files fs') (data_file (config m)) = map_of (files fs) (data_file (config m)) \<or>
         (\<exists>k. map_of (files fs') (data_file (config m))
                = Some (take k (fst (json_dump py (PDict (lists m))))))"
    by auto
  from assms r show "str_of e = None"
    by (auto simp: save_data_def split: sum.splits if_splits)
qed

lemma save_data_ok:
  assumes "save_data py m fs = (Inr u, fs')"
  shows "map_of (files fs') (data_file (config m)) = Some (fst (json_dump py (PDict (lists m))))"
    and "deny_read fs' = deny_read fs"
proof -
  from assms have r: "save_data_try py m fs = (Inr (), fs')"
    by (cases "save_data_try py m fs") (auto simp: save_data_def split: sum.splits if_splits)
  from save_data_try_cases [OF r]
  show "map_of (files fs') (data_file (config m)) = Some (fst (json_dump py (PDict (lists m))))"
    and "deny_read fs' = deny_read fs"
    by auto
qed

section \<open>Saving and loading again\<close>

text \<open>
  C8. Where \<open>_save_data\<close> has returned without an exception, the file can be read
  again and the \<open>json\<close> module parses what it wrote for this collection back to the
  same value, a fresh instance on the same storage location holds the same
  collection: the same keys in the same order, each with the same items.
\<close>

theorem save_then_load:
  assumes "save_data py m fs = (Inr (), fs')"
    and "data_file (config m) \<notin> set (deny_read fs')"
    and "json_loads py (fst (json_dump py (PDict (lists m)))) = Inr (PDict (lists m))"
  shows "init py stamp (config m) fs' = Inr (\<lparr>config = config m, lists = lists m\<rparr>, fs', [])"
proof -
  let ?df = "data_file (config m)"
  let ?text = "fst (json_dump py (PDict (lists m)))"
  from assms(1) have "map_of (files fs') ?df = Some ?text"
    by (rule save_data_ok)
  with assms(2) have "read_file fs' ?df = Inr ?text"
    by (simp add: read_file_def)
  from init_parsed [OF this assms(3)] show ?thesis by simp
qed

theorem save_then_load_witness:
  "save_data sample_py with_milk no_files = (Inr (), with_milk_stored) \<and>
   data_file (config with_milk) \<notin> set (deny_read with_milk_stored) \<and>
   json_loads sample_py (fst (json_dump sample_py (PDict (lists with_milk))))
     = Inr (PDict (lists with_milk)) \<and>
   init sample_py (str ''20260101_120000'') default_config with_milk_stored
     = Inr (with_milk, with_milk_stored, [])"
proof -
  have s: "save_data sample_py with_milk no_files = (Inr (), with_milk_stored)"
    by (simp add: save_data_def save_data_try_def path_exists_def open_w_def write_text_def
        with_milk_def with_milk_stored_def no_files_def default_config_def
        sample_py_def sample_docs_def str_def)
  have r: "data_file (config with_milk) \<notin> set (deny_read with_milk_stored)"
    by (simp add: with_milk_stored_def)
  have p: "json_loads sample_py (fst (json_dump sample_py (PDict (lists with_milk))))
             = Inr (PDict (lists with_milk))"
    by (simp add: with_milk_def sample_py_def sample_docs_def str_def)
  have c: "config with_milk = default_config"
    and m: "\<lparr>config = default_config, lists = lists with_milk\<rparr> = with_milk"
    by (simp_all add: with_milk_def)
  from save_then_load [OF s r p, of "str ''20260101_120000''"] s r p
  show ?thesis by (simp add: c m)
qed

section \<open>Mutation and persistence\<close>

lemma find_list_name_None_iff:
  "find_list_name py d n = None
     \<longleftrightarrow> (\<forall>k \<in> set (map fst d). str_lower py k \<noteq> str_lower py n)"
  by (induction d) (auto split: if_splits)

lemma find_list_name_Some:
  "find_list_name py d n = Some k \<Longrightarrow> k \<in> set (map fst d) \<and> str_lower py k = str_lower py n"
  by (induction d) (auto split: if_splits)

lemma dict_set_fresh: "k \<notin> set (map fst d) \<Longrightarrow> dict_set d k v = d @ [(k, v)]"
  by (induction d) auto

lemma handle_save:
  "handle ex kind
     (case save_data py m' fs of
        (Inl e, fs') \<Rightarrow> (Inl e, m', fs')
      | (Inr u, fs') \<Rightarrow> (Inr success, m', fs'))
   = persist py m' fs success kind"
proof (cases "save_data py m' fs")
  case (Pair r fs')
  show ?thesis
  proof (cases r)
    case (Inl e)
    with Pair save_data_error(1) [of py m' fs e fs'] show ?thesis
      by (simp add: persist_def handle_def)
  next
    case (Inr u)
    with Pair show ?thesis by (simp add: persist_def handle_def)
  qed
qed

lemma handle_unchanged: "snd (handle ex kind (r, m, fs)) = (m, fs)"
  by (cases r) (auto simp: handle_def split: option.splits)

lemma create_list_cases:
  "snd (create_list py m fs n) = (m, fs) \<or>
   create_list py m fs n =
     persist py (m\<lparr>lists := dict_set (lists m) (strip n) (PList [])\<rparr>) fs
       (ListCreated (strip n)) Creating"
proof (cases "validate_list_name (config m) n = Inr () \<and> check_list_limit m = Inr () \<and>
              \<not> found (find_list_name py (lists m) (strip n))")
  case True
  then have "create_list py m fs n =
     persist py (m\<lparr>lists := dict_set (lists m) (strip n) (PList [])\<rparr>) fs
       (ListCreated (strip n)) Creating"
    by (simp add: create_list_def create_list_try_def handle_save Let_def)
  then show ?thesis ..
next
  case False
  then have "snd (create_list py m fs n) = (m, fs)"
    by (auto simp: create_list_def create_list_try_def handle_unchanged Let_def
        split: sum.splits)
  then show ?thesis ..
qed

lemma py_append_Inr:
  "py_append v i = Inr v' \<Longrightarrow> \<exists>xs. v = PList xs \<and> v' = PList (xs @ [PStr i])"
  by (cases v) auto

lemma py_remove_Inr:
  "py_remove v i = Inr v' \<Longrightarrow>
     \<exists>xs. v = PList xs \<and> PStr i \<in> set xs \<and> v' = PList (remove1 (PStr i) xs)"
  by (cases v) (auto split: if_splits)

lemma add_item_try_cases:
  "(\<exists>e. add_item_try py m fs n x = (Inl e, m, fs)) \<or>
   (\<exists>k xs. find_list_name py (lists m) n = Some k \<and> map_of (lists m) k = Some (PList xs) \<and>
      add_item_try py m fs n x =
        (let m' = m\<lparr>lists := dict_set (lists m) k (PList (xs @ [PStr (strip x)]))\<rparr> in
         case save_data py m' fs of
           (Inl e, fs') \<Rightarrow> (Inl e, m', fs')
         | (Inr u, fs') \<Rightarrow> (Inr (ItemAdded (strip x) k), m', fs')))"
  by (auto simp: add_item_try_def Let_def dict_get_def
      split: sum.splits option.splits bool.splits dest!: py_append_Inr)

lemma add_item_cases:
  "snd (add_item py m fs n x) = (m, fs) \<or>
   (\<exists>k xs. find_list_name py (lists m) n = Some k \<and> map_of (lists m) k = Some (PList xs) \<and>
      add_item py m fs n x =
        persist py (m\<lparr>lists := dict_set (lists m) k (PList (xs @ [PStr (strip x)]))\<rparr>) fs
          (ItemAdded (strip x) k) Adding)"
  using add_item_try_cases [of py m fs n x]
  by (auto simp: add_item_def handle_unchanged handle_save Let_def)

lemma remove_item_try_cases:
  "(\<exists>e. remove_item_try py m fs n x = (Inl e, m, fs)) \<or>
   (\<exists>k xs. find_list_name py (lists m) n = Some k \<and> map_of (lists m) k = Some (PList xs) \<and>
      PStr (strip x) \<in> set xs \<and>
      remove_item_try py m fs n x =
        (let m' = m\<lparr>lists := dict_set (lists m) k (PList (remove1 (PStr (strip x)) xs))\<rparr> in
         case save_data py m' fs of
           (Inl e, fs') \<Rightarrow> (Inl e, m', fs')
         | (Inr u, fs') \<Rightarrow> (Inr (ItemRemoved (strip x) k), m', fs')))"
  by (auto simp: remove_item_try_def Let_def dict_get_def
      split: sum.splits option.splits bool.splits dest!: py_remove_Inr)

lemma remove_item_cases:
  "snd (remove_item py m fs n x) = (m, fs) \<or>
   (\<exists>k xs. find_list_name py (lists m) n = Some k \<and> map_of (lists m) k = Some (PList xs) \<and>
      PStr (strip x) \<in> set xs \<and>
      remove_item py m fs n x =
        persist py (m\<lparr>lists := dict_set (lists m) k (PList (remove1 (PStr (strip x)) xs))\<rparr>) fs
          (ItemRemoved (strip x) k) Removing)"
  using remove_item_try_cases [of py m fs n x]
  by (auto simp: remove_item_def handle_unchanged handle_save Let_def)

lemma delete_list_try_cases:
  "(\<exists>e. delete_list_try py m fs n = (Inl e, m, fs)) \<or>
   (\<exists>k. find_list_name py (lists m) n = Some k \<and>
      delete_list_try py m fs n =
        (let m' = m\<lparr>lists := filter (\<lambda>kv. fst kv \<noteq> k) (lists m)\<rparr> in
         case save_data py m' fs of
           (Inl e, fs') \<Rightarrow> (Inl e, m', fs')
         | (Inr u, fs') \<Rightarrow> (Inr (ListDeleted k), m', fs')))"
  by (auto simp: delete_list_try_def Let_def dict_del_def
      split: sum.splits option.splits if_splits)

lemma delete_list_cases:
  "snd (delete_list py m fs n) = (m, fs) \<or>
   (\<exists>k. find_list_name py (lists m) n = Some k \<and>
      delete_list py m fs n =
        persist py (m\<lparr>lists := filter (\<lambda>kv. fst kv \<noteq> k) (lists m)\<rparr>) fs
          (ListDeleted k) Deleting)"
  using delete_list_try_cases [of py m fs n]
  by (auto simp: delete_list_def handle_unchanged handle_save Let_def)


lemma add_step_added:
  "add_step cfg k c (d, a, s, f) = (d', a', s', f') \<Longrightarrow>
     (a' = a \<and> d' = d) \<or> a' = a @ [c]"
  by (auto simp: add_step_def split: sum.splits bool.splits)

lemma add_loop_added:
  "add_loop cfg k cs (d, a, s, f) = (d', a', s', f') \<Longrightarrow>
     length a \<le> length a' \<and> (length a' = length a \<longrightarrow> d' = d)"
proof (induction cs arbitrary: d a s f)
  case Nil
  then show ?case by simp
next
  case (Cons c cs)
  obtain d1 a1 s1 f1 where st: "add_step cfg k c (d, a, s, f) = (d1, a1, s1, f1)"
    by (cases "add_step cfg k c (d, a, s, f)") auto
  with Cons.prems have "add_loop cfg k cs (d1, a1, s1, f1) = (d', a', s', f')"
    by simp
  from Cons.IH [OF this] add_step_added [OF st] show ?case
    by auto
qed

lemma add_loop_nothing_added:
  "add_loop cfg k cs (d, [], [], []) = (d', [], s', f') \<Longrightarrow> d' = d"
  using add_loop_added [of cfg k cs d "[]" "[]" "[]" d' "[]" s' f'] by simp

lemma add_multiple_items_try_cases:
  "(\<exists>r. add_multiple_items_try py m fs n items_text = (r, m, fs)) \<or>
   (\<exists>k d added skipped failed.
      find_list_name py (lists m) n = Some k \<and>
      add_loop (config m) k (split_items items_text) (lists m, [], [], [])
        = (d, added, skipped, failed) \<and>
      added \<noteq> [] \<and>
      add_multiple_items_try py m fs n items_text =
        (let m' = m\<lparr>lists := d\<rparr> in
         case save_data py m' fs of
           (Inl e, fs') \<Rightarrow> (Inl e, m', fs')
         | (Inr u, fs') \<Rightarrow> (Inr (MultiReport k added skipped failed), m', fs')))"
proof (cases "find_list_name py (lists m) n")
  case None
  then show ?thesis by (simp add: add_multiple_items_try_def)
next
  case (Some k)
  obtain d added skipped failed where
    loop: "add_loop (config m) k (split_items items_text) (lists m, [], [], [])
             = (d, added, skipped, failed)"
    by (cases "add_loop (config m) k (split_items items_text) (lists m, [], [], [])") auto
  show ?thesis
  proof (cases "added = []")
    case True
    with loop have "d = lists m" by (auto dest: add_loop_nothing_added)
    with Some loop True show ?thesis
      by (auto simp: add_multiple_items_try_def Let_def split: sum.splits)
  next
    case False
    with Some loop show ?thesis
      by (auto simp: add_multiple_items_try_def Let_def split: sum.splits)
  qed
qed

lemma add_multiple_items_cases:
  "snd (add_multiple_items py m fs n items_text) = (m, fs) \<or>
   (\<exists>k d added skipped failed.
      find_list_name py (lists m) n = Some k \<and>
      add_loop (config m) k (split_items items_text) (lists m, [], [], [])
        = (d, added, skipped, failed) \<and>
      added \<noteq> [] \<and>
      add_multiple_items py m fs n items_text =
        persist py (m\<lparr>lists := d\<rparr>) fs (MultiReport k added skipped failed) AddingMany)"
  using add_multiple_items_try_cases [of py m fs n items_text]
  by (auto simp: add_multiple_items_def handle_unchanged handle_save Let_def)

lemma persist_result:
  "(case persist py m' fs success kind of
      (r, m'', fs') \<Rightarrow>
        m'' = m' \<and>
        (r = Inr (Message success) \<and> fst (save_data py m' fs) = Inr () \<and>
           map_of (files fs') (data_file (config m'))
             = Some (fst (json_dump py (PDict (lists m')))) \<or>
         r = Inr (Message (ErrorOccurred kind)) \<and>
           (\<exists>e. fst (save_data py m' fs) = Inl e) \<and>
           (map_of (files fs') (data_file (config m'))
              = map_of (files fs) (data_file (config m')) \<or>
            (\<exists>k. map_of (files fs') (data_file (config m'))
                   = Some (take k (fst (json_dump py (PDict (lists m')))))))))"
proof (cases "save_data py m' fs")
  case (Pair r fs')
  show ?thesis
  proof (cases r)
    case (Inl e)
    with Pair save_data_error(2) [of py m' fs e fs'] show ?thesis
      by (simp add: persist_def)
  next
    case (Inr u)
    with Pair save_data_ok(1) [of py m' fs u fs'] show ?thesis
      by (simp add: persist_def)
  qed
qed

text \<open>
  C1 as stated fails: the disk is full, \<open>add_item\<close> answers with the generic error,
  the item is in the in-memory list all the same, and the data file, emptied when it
  was opened for writing, holds nothing.
\<close>

theorem save_failure_counterexample:
  "add_item sample_py groceries full_disk (str ''groceries'') (str ''milk'')
     = (Inr (Message (ErrorOccurred Adding)), with_milk, full_disk_after) \<and>
   lists with_milk \<noteq> lists groceries \<and>
   map_of (files full_disk_after) (str ''lists_data.json'') = Some []"
  by (simp add: add_item_def add_item_try_def handle_def validate_item_def
      check_item_limit_def dict_get_def save_data_def save_data_try_def path_exists_def
      copy2_def read_file_def open_w_def write_text_def groceries_def with_milk_def
      full_disk_def full_disk_after_def default_config_def strip_def py_isspace_def
      sample_py_def sample_lower_def sample_lower_char_def sample_docs_def str_def Let_def)

text \<open>
  C1, as the code has it. Each of \<open>create_list\<close>, \<open>add_item\<close>,
  \<open>add_multiple_items\<close>, \<open>remove_item\<close> and \<open>delete_list\<close> either leaves the manager
  and the file system exactly as they were, or applies its whole change to the
  in-memory collection first and then saves. After that save the manager is the
  changed one whatever happened. If the save went through, the data file holds the
  serialisation of the changed collection and the success message is returned. If it
  raised, the generic error message is returned and the in-memory change is not
  rolled back; the data file then has its old content, or holds only a part, which
  may be empty, of the new serialisation.
\<close>

theorem mutate_then_persist:
  "(snd (create_list py m fs n) = (m, fs) \<or>
    create_list py m fs n =
      persist py (m\<lparr>lists := dict_set (lists m) (strip n) (PList [])\<rparr>) fs
        (ListCreated (strip n)) Creating) \<and>
   (snd (add_item py m fs n x) = (m, fs) \<or>
    (\<exists>k xs. find_list_name py (lists m) n = Some k \<and> map_of (lists m) k = Some (PList xs) \<and>
       add_item py m fs n x =
         persist py (m\<lparr>lists := dict_set (lists m) k (PList (xs @ [PStr (strip x)]))\<rparr>) fs
           (ItemAdded (strip x) k) Adding)) \<and>
   (snd (add_multiple_items py m fs n items_text) = (m, fs) \<or>
    (\<exists>k d added skipped failed.
       find_list_name py (lists m) n = Some k \<and>
       add_loop (config m) k (split_items items_text) (lists m, [], [], [])
         = (d, added, skipped, failed) \<and>
       added \<noteq> [] \<and>
       add_multiple_items py m fs n items_text =
         persist py (m\<lparr>lists := d\<rparr>) fs (MultiReport k added skipped failed) AddingMany)) \<and>
   (snd (remove_item py m fs n x) = (m, fs) \<or>
    (\<exists>k xs. find_list_name py (lists m) n = Some k \<and> map_of (lists m) k = Some (PList xs) \<and>
       PStr (strip x) \<in> set xs \<and>
       remove_item py m fs n x =
         persist py (m\<lparr>lists := dict_set (lists m) k (PList (remove1 (PStr (strip x)) xs))\<rparr>)
           fs (ItemRemoved (strip x) k) Removing)) \<and>
   (snd (delete_list py m fs n) = (m, fs) \<or>
    (\<exists>k. find_list_name py (lists m) n = Some k \<and>
       delete_list py m fs n =
         persist py (m\<lparr>lists := filter (\<lambda>kv. fst kv \<noteq> k) (lists m)\<rparr>) fs
           (ListDeleted k) Deleting)) \<and>
   (case persist py m' fs success kind of
      (r, m'', fs') \<Rightarrow>
        m'' = m' \<and>
        (r = Inr (Message success) \<and> fst (save_data py m' fs) = Inr () \<and>
           map_of (files fs') (data_file (config m'))
             = Some (fst (json_dump py (PDict (lists m')))) \<or>
         r = Inr (Message (ErrorOccurred kind)) \<and>
           (\<exists>e. fst (save_data py m' fs) = Inl e) \<and>
           (map_of (files fs') (data_file (config m'))
              = map_of (files fs) (data_file (config m')) \<or>
            (\<exists>k. map_of (files fs') (data_file (config m'))
                   = Some (take k (fst (json_dump py (PDict (lists m')))))))))"
  by (intro conjI create_list_cases add_item_cases add_multiple_items_cases
      remove_item_cases delete_list_cases persist_result)

text \<open>
  Adding \<open>milk\<close> where nothing stands in the way of the write: the success message,
  and the data file holds the changed collection.
\<close>

theorem mutate_then_persist_witness:
  "persist sample_py with_milk no_files (ItemAdded (str ''milk'') (str ''groceries'')) Adding
     = (Inr (Message (ItemAdded (str ''milk'') (str ''groceries''))), with_milk,
        with_milk_stored) \<and>
   fst (save_data sample_py with_milk no_files) = Inr () \<and>
   map_of (files with_milk_stored) (data_file (config with_milk))
     = Some (fst (json_dump sample_py (PDict (lists with_milk))))"
proof -
  have p: "persist sample_py with_milk no_files (ItemAdded (str ''milk'') (str ''groceries''))
             Adding
     = (Inr (Message (ItemAdded (str ''milk'') (str ''groceries''))), with_milk,
        with_milk_stored)"
    by (simp add: persist_def save_data_def save_data_try_def path_exists_def open_w_def
        write_text_def with_milk_def with_milk_stored_def no_files_def default_config_def
        sample_py_def sample_docs_def)
  from mutate_then_persist
    [where py = sample_py and m' = with_milk and fs = no_files
       and success = "ItemAdded (str ''milk'') (str ''groceries'')" and kind = Adding]
  have "fst (save_data sample_py with_milk no_files) = Inr () \<and>
        map_of (files with_milk_stored) (data_file (config with_milk))
          = Some (fst (json_dump sample_py (PDict (lists with_milk))))"
    by (simp add: p)
  with p show ?thesis by simp
qed

section \<open>Frame conditions\<close>

lemma persist_manager: "fst (snd (persist py m' fs success kind)) = m'"
  by (simp add: persist_def split: prod.splits sum.splits)

lemma keys_dict_set_present:
  "map_of d k = Some v \<Longrightarrow> map fst (dict_set d k v') = map fst d"
  by (induction d) (auto split: if_splits)

lemma map_of_filter_other:
  "k' \<noteq> k \<Longrightarrow> map_of (filter (\<lambda>kv. fst kv \<noteq> k) d) k' = map_of d k'"
  by (induction d) auto

lemma add_item_frame:
  "map fst (lists (fst (snd (add_item py m fs n x)))) = map fst (lists m) \<and>
   (find_list_name py (lists m) n \<noteq> Some k' \<longrightarrow>
      map_of (lists (fst (snd (add_item py m fs n x)))) k' = map_of (lists m) k')"
  using add_item_cases [of py m fs n x]
  by (auto simp: persist_manager keys_dict_set_present map_of_dict_set)

lemma remove_item_frame:
  "map fst (lists (fst (snd (remove_item py m fs n x)))) = map fst (lists m) \<and>
   (find_list_name py (lists m) n \<noteq> Some k' \<longrightarrow>
      map_of (lists (fst (snd (remove_item py m fs n x)))) k' = map_of (lists m) k')"
  using remove_item_cases [of py m fs n x]
  by (auto simp: persist_manager keys_dict_set_present map_of_dict_set)

lemma create_list_frame:
  "k' \<noteq> strip n \<longrightarrow>
     map_of (lists (fst (snd (create_list py m fs n)))) k' = map_of (lists m) k'"
  using create_list_cases [of py m fs n]
  by (auto simp: persist_manager map_of_dict_set)

lemma delete_list_frame:
  "find_list_name py (lists m) n \<noteq> Some k' \<longrightarrow>
     map_of (lists (fst (snd (delete_list py m fs n)))) k' = map_of (lists m) k'"
  using delete_list_cases [of py m fs n]
  by (auto simp: persist_manager map_of_filter_other)

text \<open>
  C9. \<open>add_item\<close> and \<open>remove_item\<close> leave the keys, in their order, as they were,
  and the value of every key other than the one the name resolves to. \<open>create_list\<close>
  leaves the value of every key other than the trimmed name as it was, and
  \<open>delete_list\<close> the value of every key other than the one the name resolves to.
\<close>

theorem single_list_frame:
  "map fst (lists (fst (snd (add_item py m fs n x)))) = map fst (lists m) \<and>
   (find_list_name py (lists m) n \<noteq> Some k' \<longrightarrow>
      map_of (lists (fst (snd (add_item py m fs n x)))) k' = map_of (lists m) k') \<and>
   map fst (lists (fst (snd (remove_item py m fs n x)))) = map fst (lists m) \<and>
   (find_list_name py (lists m) n \<noteq> Some k' \<longrightarrow>
      map_of (lists (fst (snd (remove_item py m fs n x)))) k' = map_of (lists m) k') \<and>
   (k' \<noteq> strip n \<longrightarrow>
      map_of (lists (fst (snd (create_list py m fs n)))) k' = map_of (lists m) k') \<and>
   (find_list_name py (lists m) n \<noteq> Some k' \<longrightarrow>
      map_of (lists (fst (snd (delete_list py m fs n)))) k' = map_of (lists m) k')"
  using add_item_frame [of py m fs n x k'] remove_item_frame [of py m fs n x k']
    create_list_frame [of k' n py m fs] delete_list_frame [of py m n k' fs]
  by blast

theorem single_list_frame_witness:
  "find_list_name sample_py (lists two_lists) (str ''Groceries'') \<noteq> Some (str ''todo'') \<and>
   (str ''todo'') \<noteq> strip (str ''Groceries'') \<and>
   map_of (lists (fst (snd (add_item sample_py two_lists no_files (str ''Groceries'') (str ''eggs'')))))
     (str ''todo'') = Some (PList [PStr (str ''call'')]) \<and>
   map_of (lists (fst (snd (remove_item sample_py two_lists no_files (str ''Groceries'') (str ''milk'')))))
     (str ''todo'') = Some (PList [PStr (str ''call'')]) \<and>
   map_of (lists (fst (snd (create_list sample_py two_lists no_files (str ''Groceries'')))))
     (str ''todo'') = Some (PList [PStr (str ''call'')]) \<and>
   map_of (lists (fst (snd (delete_list sample_py two_lists no_files (str ''Groceries'')))))
     (str ''todo'') = Some (PList [PStr (str ''call'')])"
proof -
  have f: "find_list_name sample_py (lists two_lists) (str ''Groceries'') \<noteq> Some (str ''todo'')"
    by (simp add: two_lists_def sample_py_def sample_lower_def sample_lower_char_def str_def)
  have s: "(str ''todo'') \<noteq> strip (str ''Groceries'')"
    by (simp add: strip_def py_isspace_def str_def)
  have v: "map_of (lists two_lists) (str ''todo'') = Some (PList [PStr (str ''call'')])"
    by (simp add: two_lists_def)
  from single_list_frame
    [of sample_py two_lists no_files "(str ''Groceries'')" "(str ''eggs'')" "(str ''todo'')"]
    single_list_frame
    [of sample_py two_lists no_files "(str ''Groceries'')" "(str ''milk'')" "(str ''todo'')"] f s v
  show ?thesis by simp
qed

section \<open>What the public operations return\<close>

lemma handle_returns: "\<exists>msg. fst (handle ex kind r) = Inr (Message msg)"
  by (cases r) (auto simp: handle_def split: sum.splits option.splits)

lemma lens_lists: "list_all is_str_list vs \<Longrightarrow> \<exists>ns. lens vs = Inr ns"
proof (induction vs)
  case Nil
  then show ?case by simp
next
  case (Cons v vs)
  then obtain ns where "lens vs = Inr ns" by auto
  moreover from Cons.prems obtain xs where "v = PList xs" by (cases v) auto
  ultimately show ?case by simp
qed

lemma declared_type_sorted:
  "declared_type d \<Longrightarrow> list_all is_str_list (map snd (sort_key fst d))"
proof -
  assume "declared_type d"
  then have "\<forall>kv \<in> set d. is_str_list (snd kv)"
    by (simp add: declared_type_def list_all_iff)
  then have "\<forall>kv \<in> set (sort_key fst d). is_str_list (snd kv)" by simp
  then show ?thesis by (simp add: list_all_iff)
qed

text \<open>
  C4, as the code has it. \<open>create_list\<close>, \<open>add_item\<close>, \<open>add_multiple_items\<close>,
  \<open>remove_item\<close>, \<open>show_list\<close>, \<open>delete_list\<close>, \<open>search_item\<close> and \<open>get_help\<close>
  return a result string for every manager and every argument, and no exception
  crosses their boundary. On a collection of the declared type, \<open>show_all_lists\<close>
  returns a result string and \<open>get_stats\<close> returns its dictionary of numbers, which
  is not a string; neither raises there.
\<close>

theorem results_are_returned:
  "(\<exists>msg. fst (create_list py m fs n) = Inr (Message msg)) \<and>
   (\<exists>msg. fst (add_item py m fs n x) = Inr (Message msg)) \<and>
   (\<exists>msg. fst (add_multiple_items py m fs n items_text) = Inr (Message msg)) \<and>
   (\<exists>msg. fst (remove_item py m fs n x) = Inr (Message msg)) \<and>
   (\<exists>msg. fst (show_list py m fs n) = Inr (Message msg)) \<and>
   (\<exists>msg. fst (delete_list py m fs n) = Inr (Message msg)) \<and>
   (\<exists>msg. fst (search_item py m fs search_term) = Inr (Message msg)) \<and>
   (\<exists>msg. fst (get_help m fs) = Inr (Message msg)) \<and>
   (declared_type (lists m) \<longrightarrow>
      (\<exists>msg. fst (show_all_lists m fs) = Inr (Message msg)) \<and>
      (\<exists>st. fst (get_stats m fs) = Inr (Stats st)))"
proof (intro conjI impI)
  assume d: "declared_type (lists m)"
  from declared_type_sorted [OF d] obtain ns
    where "lens (map snd (sort_key fst (lists m))) = Inr ns"
    by (auto dest: lens_lists)
  then show "\<exists>msg. fst (show_all_lists m fs) = Inr (Message msg)"
    by (simp add: show_all_lists_def)
  from d have "list_all is_str_list (map snd (lists m))"
    by (simp add: declared_type_def list_all_iff)
  then obtain ns' where "lens (map snd (lists m)) = Inr ns'"
    by (auto dest: lens_lists)
  then show "\<exists>st. fst (get_stats m fs) = Inr (Stats st)"
    by (simp add: get_stats_def)
qed (simp_all add: create_list_def add_item_def add_multiple_items_def remove_item_def
      show_list_def delete_list_def search_item_def get_help_def handle_returns)

theorem results_are_returned_witness:
  "declared_type (lists two_lists) \<and>
   (\<exists>msg. fst (show_all_lists two_lists no_files) = Inr (Message msg)) \<and>
   (\<exists>st. fst (get_stats two_lists no_files) = Inr (Stats st))"
proof -
  have d: "declared_type (lists two_lists)"
    by (simp add: declared_type_def two_lists_def)
  with results_are_returned [of sample_py two_lists no_files]
  show ?thesis by blast
qed

text \<open>
  C4 as stated fails: \<open>get_stats\<close> returns a dictionary of numbers, not a string;
  and on the mapping adopted from a file whose value is a number, \<open>show_all_lists\<close>
  and \<open>get_stats\<close>, which have no \<open>try\<close>, let the \<open>TypeError\<close> of \<open>len\<close> through.
\<close>

theorem stats_not_a_string_counterexample:
  "fst (get_stats empty_manager no_files)
     = Inr (Stats \<lparr>total_lists = 0, total_items = 0, average_items_per_list = PyInt 0,
                   largest_list_size = 0\<rparr>) \<and>
   init sample_py (str ''20260101_120000'') default_config malformed_values
     = Inr (adopted_malformed, malformed_values, []) \<and>
   fst (show_all_lists adopted_malformed malformed_values) = Inl (Builtin TypeError) \<and>
   fst (get_stats adopted_malformed malformed_values) = Inl (Builtin TypeError)"
  by (simp add: get_stats_def show_all_lists_def empty_manager_def adopted_malformed_def
      init_def load_data_def load_data_try_def path_exists_def read_file_def
      malformed_values_def default_config_def sample_py_def sample_docs_def str_def)

section \<open>Trimming and validation\<close>

lemma strip_Nil [simp]: "strip [] = []"
  by (simp add: strip_def)

lemma strip_idem [simp]: "strip (strip s) = strip s"
proof -
  define u where "u = dropWhile py_isspace s"
  define r where "r = dropWhile py_isspace (rev u)"
  have t: "strip s = rev r" by (simp add: strip_def u_def r_def)
  have "dropWhile py_isspace (rev r) = rev r"
  proof (cases "r = []")
    case True
    then show ?thesis by simp
  next
    case False
    then have "rev u \<noteq> []" by (auto simp: r_def)
    then have un: "u \<noteq> []" by simp
    have "rev u = takeWhile py_isspace (rev u) @ r" by (simp add: r_def)
    with False have "last (rev u) = last r" by (metis last_appendR)
    with un have "hd u = last r" by (simp add: last_rev)
    moreover from un have "\<not> py_isspace (hd u)"
      unfolding u_def by (rule hd_dropWhile)
    ultimately have "\<not> py_isspace (hd (rev r))" using False by (simp add: hd_rev)
    then show ?thesis by (simp add: dropWhile_eq_self_iff)
  qed
  moreover have "dropWhile py_isspace r = r" by (simp add: r_def)
  ultimately show ?thesis by (simp add: t) (simp add: strip_def)
qed

lemma split_items_stripped:
  "c \<in> set (split_items t) \<Longrightarrow> c \<noteq> [] \<and> strip c = c"
  by (auto simp: split_items_def)

lemma validate_list_name_iff:
  "validate_list_name cfg n = Inr () \<longleftrightarrow>
     strip n \<noteq> [] \<and> int (length (strip n)) \<le> max_list_name_length cfg"
  by (auto simp: validate_list_name_def)

lemma validate_item_iff:
  "validate_item cfg x = Inr () \<longleftrightarrow>
     strip x \<noteq> [] \<and> int (length (strip x)) \<le> max_item_length cfg"
  by (auto simp: validate_item_def)

lemma create_list_result:
  "create_list py m fs n =
     (if strip n = [] then (Inr (Message ListNameEmpty), m, fs)
      else if int (length (strip n)) > max_list_name_length (config m)
      then (Inr (Message (InvalidListName (max_list_name_length (config m)))), m, fs)
      else if int (length (lists m)) \<ge> max_lists_per_user (config m)
      then (Inr (Message (TooManyLists (max_lists_per_user (config m)))), m, fs)
      else if found (find_list_name py (lists m) (strip n))
      then (Inr (Message (ListExists (strip n))), m, fs)
      else persist py (m\<lparr>lists := dict_set (lists m) (strip n) (PList [])\<rparr>) fs
             (ListCreated (strip n)) Creating)"
proof (cases "validate_list_name (config m) n = Inr () \<and> check_list_limit m = Inr () \<and>
              \<not> found (find_list_name py (lists m) (strip n))")
  case True
  then have "create_list py m fs n =
     persist py (m\<lparr>lists := dict_set (lists m) (strip n) (PList [])\<rparr>) fs
       (ListCreated (strip n)) Creating"
    by (simp add: create_list_def create_list_try_def handle_save Let_def)
  with True show ?thesis
    by (auto simp: validate_list_name_iff check_list_limit_def split: if_splits)
next
  case False
  then show ?thesis
    by (auto simp: create_list_def create_list_try_def handle_def Let_def
        validate_list_name_def check_list_limit_def split: sum.splits if_splits)
qed

section \<open>What a session keeps true\<close>

lemma list_all_dict_set:
  "list_all P d \<Longrightarrow> P (k, v) \<Longrightarrow> list_all P (dict_set d k v)"
  by (induction d) auto

lemma well_formed_dict_set:
  assumes "well_formed py d" and "map_of d k = Some v" and "stored_list v'"
  shows "well_formed py (dict_set d k v')"
proof -
  from assms(2) have keys: "map fst (dict_set d k v') = map fst d"
    by (rule keys_dict_set_present)
  have "map (\<lambda>kv. str_lower py (fst kv)) (dict_set d k v') = map (str_lower py) (map fst (dict_set d k v'))"
    by simp
  also have "\<dots> = map (\<lambda>kv. str_lower py (fst kv)) d"
    by (simp add: keys)
  finally have low: "map (\<lambda>kv. str_lower py (fst kv)) (dict_set d k v') = map (\<lambda>kv. str_lower py (fst kv)) d" .
  from assms(2) have "(k, v) \<in> set d" by (rule map_of_SomeD)
  with assms(1) have "k \<noteq> []"
    by (auto simp: well_formed_def list_all_iff)
  with assms(1,3) have "list_all (\<lambda>kv. fst kv \<noteq> [] \<and> stored_list (snd kv)) (dict_set d k v')"
    by (intro list_all_dict_set) (simp_all add: well_formed_def)
  with assms(1) low show ?thesis by (simp add: well_formed_def)
qed

lemma well_formed_lookup:
  "well_formed py d \<Longrightarrow> map_of d k = Some v \<Longrightarrow> k \<noteq> [] \<and> stored_list v"
  by (auto simp: well_formed_def list_all_iff dest!: map_of_SomeD)

lemma stored_list_append:
  "stored_list (PList es) \<Longrightarrow> c \<noteq> [] \<Longrightarrow> strip c = c \<Longrightarrow> stored_list (PList (es @ [PStr c]))"
  by simp

lemma stored_list_remove1:
  "stored_list (PList es) \<Longrightarrow> stored_list (PList (remove1 e es))"
  by (auto simp: list_all_iff dest: notin_set_remove1)

lemma well_formed_filter: "well_formed py d \<Longrightarrow> well_formed py (filter P d)"
  by (auto simp: well_formed_def list_all_iff distinct_map_filter)

lemma length_dict_set: "length (dict_set d k v) \<le> Suc (length d)"
  by (induction d) auto

lemma not_found_None:
  assumes "well_formed py d" and "\<not> found (find_list_name py d n)"
  shows "find_list_name py d n = None"
proof (rule ccontr)
  assume "find_list_name py d n \<noteq> None"
  with assms(2) have k: "find_list_name py d n = Some []"
    by (auto simp: not_found_cases)
  from find_list_name_Some [OF k] have "[] \<in> set (map fst d)" by simp
  with assms(1) show False
    by (auto simp: well_formed_def list_all_iff)
qed

lemma well_formed_create:
  assumes "well_formed py d" and "n \<noteq> []" and "\<not> found (find_list_name py d n)"
  shows "well_formed py (dict_set d n (PList []))"
proof -
  from assms(1,3) have "find_list_name py d n = None"
    by (rule not_found_None)
  then have fresh: "\<forall>k \<in> set (map fst d). str_lower py k \<noteq> str_lower py n"
    by (simp add: find_list_name_None_iff)
  then have "n \<notin> set (map fst d)" by blast
  then have "dict_set d n (PList []) = d @ [(n, PList [])]"
    by (rule dict_set_fresh)
  with assms(1,2) fresh show ?thesis
    by (auto simp: well_formed_def)
qed

lemma add_step_well_formed:
  assumes "well_formed py d" and "c \<noteq> []" and "strip c = c"
    and "add_step cfg k c (d, a, s, f) = (d', a', s', f')"
  shows "well_formed py d'"
proof (cases "d' = d")
  case True
  with assms(1) show ?thesis by simp
next
  case False
  with assms(4) obtain v v' where
    v: "map_of d k = Some v" "py_append v c = Inr v'" "d' = dict_set d k v'"
    by (auto simp: add_step_def dict_get_def split: sum.splits bool.splits option.splits)
  from v(2) obtain es where es: "v = PList es" "v' = PList (es @ [PStr c])"
    by (auto dest: py_append_Inr)
  from well_formed_lookup [OF assms(1) v(1)] es assms(2,3) have "stored_list v'"
    by simp
  with assms(1) v show ?thesis by (simp add: well_formed_dict_set)
qed

lemma add_loop_well_formed:
  "well_formed py d \<Longrightarrow> \<forall>c \<in> set cs. c \<noteq> [] \<and> strip c = c \<Longrightarrow>
     add_loop cfg k cs (d, a, s, f) = (d', a', s', f') \<Longrightarrow> well_formed py d'"
proof (induction cs arbitrary: d a s f)
  case Nil
  then show ?case by simp
next
  case (Cons c cs)
  obtain d1 a1 s1 f1 where st: "add_step cfg k c (d, a, s, f) = (d1, a1, s1, f1)"
    by (cases "add_step cfg k c (d, a, s, f)") auto
  with Cons.prems have "well_formed py d1"
    by (auto intro: add_step_well_formed)
  moreover from st Cons.prems have "add_loop cfg k cs (d1, a1, s1, f1) = (d', a', s', f')"
    by simp
  ultimately show ?case using Cons.IH Cons.prems(2) by auto
qed

lemma add_item_invalid:
  "validate_item (config m) x \<noteq> Inr () \<Longrightarrow> snd (add_item py m fs n x) = (m, fs)"
  by (auto simp: add_item_def add_item_try_def handle_unchanged split: sum.splits)

lemma create_list_step:
  "well_formed py (lists m) \<Longrightarrow>
     well_formed py (lists (fst (snd (create_list py m fs n)))) \<and>
     config (fst (snd (create_list py m fs n))) = config m"
  by (simp add: create_list_result persist_manager well_formed_create)

lemma add_item_step:
  assumes "well_formed py (lists m)"
  shows "well_formed py (lists (fst (snd (add_item py m fs n x)))) \<and>
         config (fst (snd (add_item py m fs n x))) = config m"
proof (cases "validate_item (config m) x = Inr ()")
  case False
  with assms show ?thesis by (simp add: add_item_invalid)
next
  case True
  then have ne: "strip x \<noteq> []" by (simp add: validate_item_iff)
  from add_item_cases [of py m fs n x] show ?thesis
  proof
    assume "snd (add_item py m fs n x) = (m, fs)"
    with assms show ?thesis by simp
  next
    assume "\<exists>k xs. find_list_name py (lists m) n = Some k \<and>
              map_of (lists m) k = Some (PList xs) \<and>
              add_item py m fs n x =
                persist py (m\<lparr>lists := dict_set (lists m) k (PList (xs @ [PStr (strip x)]))\<rparr>)
                  fs (ItemAdded (strip x) k) Adding"
    then obtain k xs where k: "map_of (lists m) k = Some (PList xs)"
      and r: "add_item py m fs n x =
                persist py (m\<lparr>lists := dict_set (lists m) k (PList (xs @ [PStr (strip x)]))\<rparr>)
                  fs (ItemAdded (strip x) k) Adding"
      by blast
    from well_formed_lookup [OF assms k] ne
    have "stored_list (PList (xs @ [PStr (strip x)]))" by simp
    with assms k have "well_formed py (dict_set (lists m) k (PList (xs @ [PStr (strip x)])))"
      by (rule well_formed_dict_set)
    with r show ?thesis by (simp add: persist_manager)
  qed
qed

lemma add_multiple_items_step:
  assumes "well_formed py (lists m)"
  shows "well_formed py (lists (fst (snd (add_multiple_items py m fs n t)))) \<and>
         config (fst (snd (add_multiple_items py m fs n t))) = config m"
  using add_multiple_items_cases [of py m fs n t]
proof
  assume "snd (add_multiple_items py m fs n t) = (m, fs)"
  with assms show ?thesis by simp
next
  assume "\<exists>k d added skipped failed.
      find_list_name py (lists m) n = Some k \<and>
      add_loop (config m) k (split_items t) (lists m, [], [], [])
        = (d, added, skipped, failed) \<and>
      added \<noteq> [] \<and>
      add_multiple_items py m fs n t =
        persist py (m\<lparr>lists := d\<rparr>) fs (MultiReport k added skipped failed) AddingMany"
  then obtain k d added skipped failed where
    loop: "add_loop (config m) k (split_items t) (lists m, [], [], [])
             = (d, added, skipped, failed)"
    and r: "add_multiple_items py m fs n t =
        persist py (m\<lparr>lists := d\<rparr>) fs (MultiReport k added skipped failed) AddingMany"
    by blast
  have "\<forall>c \<in> set (split_items t). c \<noteq> [] \<and> strip c = c"
    by (simp add: split_items_stripped)
  with assms have "well_formed py d"
    using loop by (rule add_loop_well_formed)
  with r show ?thesis by (simp add: persist_manager)
qed

lemma remove_item_step:
  assumes "well_formed py (lists m)"
  shows "well_formed py (lists (fst (snd (remove_item py m fs n x)))) \<and>
         config (fst (snd (remove_item py m fs n x))) = config m"
  using remove_item_cases [of py m fs n x]
proof
  assume "snd (remove_item py m fs n x) = (m, fs)"
  with assms show ?thesis by simp
next
  assume "\<exists>k xs. find_list_name py (lists m) n = Some k \<and> map_of (lists m) k = Some (PList xs) \<and>
      PStr (strip x) \<in> set xs \<and>
      remove_item py m fs n x =
        persist py (m\<lparr>lists := dict_set (lists m) k (PList (remove1 (PStr (strip x)) xs))\<rparr>) fs
          (ItemRemoved (strip x) k) Removing"
  then obtain k xs where k: "map_of (lists m) k = Some (PList xs)"
    and r: "remove_item py m fs n x =
        persist py (m\<lparr>lists := dict_set (lists m) k (PList (remove1 (PStr (strip x)) xs))\<rparr>) fs
          (ItemRemoved (strip x) k) Removing"
    by blast
  from well_formed_lookup [OF assms k] have "stored_list (PList xs)"
    by simp
  then have "stored_list (PList (remove1 (PStr (strip x)) xs))"
    by (rule stored_list_remove1)
  with assms k have "well_formed py (dict_set (lists m) k (PList (remove1 (PStr (strip x)) xs)))"
    by (rule well_formed_dict_set)
  with r show ?thesis by (simp add: persist_manager)
qed

lemma delete_list_step:
  assumes "well_formed py (lists m)"
  shows "well_formed py (lists (fst (snd (delete_list py m fs n)))) \<and>
         config (fst (snd (delete_list py m fs n))) = config m"
  using delete_list_cases [of py m fs n] assms
  by (auto simp: persist_manager well_formed_filter)

lemma read_only_ops:
  "snd (show_list py m fs n) = (m, fs)"
  "snd (show_all_lists m fs) = (m, fs)"
  "snd (search_item py m fs t) = (m, fs)"
  "snd (get_stats m fs) = (m, fs)"
  "snd (get_help m fs) = (m, fs)"
  by (auto simp: show_list_def show_list_try_def show_all_lists_def search_item_def
      search_item_try_def get_stats_def get_help_def handle_unchanged Let_def
      split: sum.splits option.splits)

lemma perform_step:
  "well_formed py (lists m) \<Longrightarrow>
     well_formed py (lists (fst (snd (perform py m fs c)))) \<and>
     config (fst (snd (perform py m fs c))) = config m"
  by (cases c)
    (simp_all add: create_list_step add_item_step add_multiple_items_step remove_item_step
      delete_list_step read_only_ops)

lemma run_invariant:
  "well_formed py (lists m) \<Longrightarrow>
     well_formed py (lists (run py m trace)) \<and> config (run py m trace) = config m"
proof (induction trace arbitrary: m)
  case Nil
  then show ?case by simp
next
  case (Cons step trace)
  obtain c fs where step: "step = (c, fs)" by (cases step)
  from perform_step [OF Cons.prems, of fs c] Cons.IH [of "fst (snd (perform py m fs c))"]
  show ?case by (simp add: step)
qed

lemma well_formed_empty: "well_formed py []"
  by (simp add: well_formed_def)

lemma at_most_one_match:
  "distinct (map f xs) \<Longrightarrow> length (filter (\<lambda>z. f z = y) xs) \<le> 1"
proof (induction xs)
  case Nil
  then show ?case by simp
next
  case (Cons x xs)
  show ?case
  proof (cases "f x = y")
    case True
    from Cons.prems have "f x \<notin> f ` set xs" by simp
    with True have "\<forall>z \<in> set xs. f z \<noteq> y" by blast
    then have "filter (\<lambda>z. f z = y) xs = []"
      by (simp add: filter_empty_conv)
    with True show ?thesis by simp
  next
    case False
    with Cons show ?thesis by simp
  qed
qed

section \<open>Creating twice, removing a blank item\<close>

lemma find_list_name_lower_cong:
  "str_lower py a = str_lower py b \<Longrightarrow> find_list_name py d a = find_list_name py d b"
  by (induction d) auto

lemma found_if_key:
  assumes "well_formed py d" and "k \<in> set (map fst d)" and "str_lower py k = str_lower py n"
  shows "found (find_list_name py d n)"
proof (rule ccontr)
  assume "\<not> found (find_list_name py d n)"
  with assms(1) have "find_list_name py d n = None"
    by (rule not_found_None)
  with assms(2,3) show False
    by (auto simp: find_list_name_None_iff)
qed

lemma second_create:
  assumes w: "well_formed py (lists m0)"
    and v: "validate_list_name (config m0) n = Inr ()"
    and v': "validate_list_name (config m0) n' = Inr ()"
    and l: "str_lower py (strip n') = str_lower py (strip n)"
    and m1_def: "m1 = fst (snd (create_list py m0 fs n))"
  shows "create_list py m1 fs' n' =
           (Inr (Message (if int (length (lists m1)) \<ge> max_lists_per_user (config m0)
                          then TooManyLists (max_lists_per_user (config m0))
                          else ListExists (strip n'))), m1, fs')"
    and "length (lists m1) \<le> length (lists m0) + 1"
proof -
  from v have ne: "strip n \<noteq> []"
    and len: "int (length (strip n)) \<le> max_list_name_length (config m0)"
    by (simp_all add: validate_list_name_iff)
  from v' have ne': "strip n' \<noteq> []"
    and len': "int (length (strip n')) \<le> max_list_name_length (config m0)"
    by (simp_all add: validate_list_name_iff)
  from create_list_step [OF w, of fs n]
  have w1: "well_formed py (lists m1)" and c: "config m1 = config m0"
    by (simp_all add: m1_def)
  show "length (lists m1) \<le> length (lists m0) + 1"
    by (simp add: m1_def create_list_result persist_manager length_dict_set)
  have "found (find_list_name py (lists m1) (strip n'))"
    if room: "\<not> int (length (lists m1)) \<ge> max_lists_per_user (config m0)"
  proof (cases "found (find_list_name py (lists m0) (strip n))")
    case True
    with ne len have "m1 = m0"
      by (simp add: m1_def create_list_result)
    with True l show ?thesis
      by (simp add: find_list_name_lower_cong [of py "strip n'" "strip n"])
  next
    case False
    have "\<not> int (length (lists m0)) \<ge> max_lists_per_user (config m0)"
    proof
      assume "int (length (lists m0)) \<ge> max_lists_per_user (config m0)"
      with ne len have "m1 = m0" by (simp add: m1_def create_list_result)
      with room \<open>int (length (lists m0)) \<ge> max_lists_per_user (config m0)\<close>
      show False by simp
    qed
    with False ne len have "lists m1 = dict_set (lists m0) (strip n) (PList [])"
      by (simp add: m1_def create_list_result persist_manager)
    then have "strip n \<in> set (map fst (lists m1))"
      by (simp add: keys_dict_set)
    with w1 show ?thesis using l [symmetric] by (rule found_if_key)
  qed
  with ne' len' c show "create_list py m1 fs' n' =
           (Inr (Message (if int (length (lists m1)) \<ge> max_lists_per_user (config m0)
                          then TooManyLists (max_lists_per_user (config m0))
                          else ListExists (strip n'))), m1, fs')"
    by (auto simp: create_list_result)
qed

text \<open>
  C6, as the code has it. In every state a session reaches from the empty
  collection, at most one key has the lowercase form of a candidate name. When
  \<open>create_list\<close> is called there with a valid name and then again with a name that
  is valid too and has the same lowercase form, the second call is rejected and
  changes nothing: with list-exists if the collection is below \<open>max_lists_per_user\<close>
  after the first call, with the too-many-lists message if it is not, because the
  limit is checked before the name is looked up. The first call adds at most one
  list. That the second name is valid has to be asked for: \<open>str.lower\<close> can lengthen
  a string, so of two names with one lowercase form one can be within
  \<open>max_list_name_length\<close> and the other beyond it.
\<close>

theorem create_twice:
  assumes "validate_list_name cfg n = Inr ()" and "validate_list_name cfg n' = Inr ()"
    and "str_lower py (strip n') = str_lower py (strip n)"
  shows "let m0 = run py \<lparr>config = cfg, lists = []\<rparr> trace;
             m1 = fst (snd (create_list py m0 fs n))
         in length (filter (\<lambda>k. str_lower py k = str_lower py c) (map fst (lists m0))) \<le> 1 \<and>
            create_list py m1 fs' n' =
              (Inr (Message (if int (length (lists m1)) \<ge> max_lists_per_user cfg
                             then TooManyLists (max_lists_per_user cfg)
                             else ListExists (strip n'))), m1, fs') \<and>
            length (lists m1) \<le> length (lists m0) + 1"
proof -
  define m0 where "m0 = run py \<lparr>config = cfg, lists = []\<rparr> trace"
  have inv: "well_formed py (lists m0)" and c: "config m0 = cfg"
    using run_invariant [of py "\<lparr>config = cfg, lists = []\<rparr>" trace]
    by (simp_all add: m0_def well_formed_empty)
  from inv have "distinct (map (str_lower py) (map fst (lists m0)))"
    by (simp add: well_formed_def comp_def)
  then have one: "length (filter (\<lambda>k. str_lower py k = str_lower py c) (map fst (lists m0))) \<le> 1"
    by (rule at_most_one_match)
  from assms(1,2) c have v: "validate_list_name (config m0) n = Inr ()"
    and v': "validate_list_name (config m0) n' = Inr ()" by simp_all
  from second_create(1) [where fs=fs and fs'=fs', OF inv v v' assms(3) refl]
    second_create(2) [where fs=fs, OF inv v v' assms(3) refl] one c show ?thesis
    by (simp add: m0_def Let_def)
qed

text \<open>
  C10. In every state a session reaches from the empty collection, every value is a
  list of non-empty, trimmed strings; so \<open>remove_item\<close> on a list that exists, with
  an item that is empty or all whitespace, answers item-not-found for the empty item
  (not a validation error) and leaves the manager and the file system as they were.
\<close>

theorem remove_blank_item:
  assumes "find_list_name py (lists (run py \<lparr>config = cfg, lists = []\<rparr> trace)) n = Some k"
    and "strip x = []"
  shows "remove_item py (run py \<lparr>config = cfg, lists = []\<rparr> trace) fs n x
           = (Inr (Message (ItemNotFound [] k)), run py \<lparr>config = cfg, lists = []\<rparr> trace, fs) \<and>
         list_all (\<lambda>kv. stored_list (snd kv)) (lists (run py \<lparr>config = cfg, lists = []\<rparr> trace))"
proof -
  define m where "m = run py \<lparr>config = cfg, lists = []\<rparr> trace"
  have inv: "well_formed py (lists m)"
    using run_invariant [of py "\<lparr>config = cfg, lists = []\<rparr>" trace]
    by (simp add: m_def well_formed_empty)
  from assms(1) have "k \<in> set (map fst (lists m))"
    by (auto simp: m_def dest: find_list_name_Some)
  then obtain v where v: "map_of (lists m) k = Some v"
    by (metis map_of_eq_None_iff not_Some_eq set_map)
  from well_formed_lookup [OF inv v] obtain es where
    k: "k \<noteq> []" and es: "v = PList es" "list_all stored_item es"
    by (cases v) auto
  from es(2) have "PStr [] \<notin> set es"
    by (auto simp: list_all_iff)
  with assms v k es(1) have
    "remove_item py m fs n x = (Inr (Message (ItemNotFound [] k)), m, fs)"
    by (simp add: remove_item_def remove_item_try_def handle_def dict_get_def m_def)
  moreover from inv have "list_all (\<lambda>kv. stored_list (snd kv)) (lists m)"
    by (simp add: well_formed_def list_all_iff)
  ultimately show ?thesis by (simp add: m_def)
qed


lemma todo_session_run:
  "run sample_py \<lparr>config = default_config, lists = []\<rparr> todo_session = todo_manager"
  by code_simp

theorem create_twice_witness:
  "validate_list_name default_config (str ''milk'') = Inr () \<and>
   validate_list_name default_config (str ''Milk'') = Inr () \<and>
   str_lower sample_py (strip (str ''Milk'')) = str_lower sample_py (strip (str ''milk'')) \<and>
   run sample_py \<lparr>config = default_config, lists = []\<rparr> todo_session = todo_manager \<and>
   fst (snd (create_list sample_py todo_manager no_files (str ''milk''))) = todo_and_milk \<and>
   create_list sample_py todo_and_milk no_files (str ''Milk'')
     = (Inr (Message (ListExists (str ''Milk''))), todo_and_milk, no_files)"
proof -
  have v: "validate_list_name default_config (str ''milk'') = Inr ()"
    by (simp add: validate_list_name_def default_config_def strip_def py_isspace_def str_def)
  have v': "validate_list_name default_config (str ''Milk'') = Inr ()"
    by (simp add: validate_list_name_def default_config_def strip_def py_isspace_def str_def)
  have l: "str_lower sample_py (strip (str ''Milk'')) = str_lower sample_py (strip (str ''milk''))"
    by (simp add: strip_def py_isspace_def sample_py_def sample_lower_def
        sample_lower_char_def str_def)
  have m1: "fst (snd (create_list sample_py todo_manager no_files (str ''milk''))) = todo_and_milk"
    by code_simp
  have room: "\<not> max_lists_per_user default_config \<le> int (length (lists todo_and_milk))"
    by (simp add: default_config_def todo_and_milk_def)
  have s: "strip (str ''Milk'') = (str ''Milk'')"
    by (simp add: strip_def py_isspace_def str_def)
  from create_twice [OF v v' l, of todo_session no_files _ no_files]
  have "create_list sample_py todo_and_milk no_files (str ''Milk'')
     = (Inr (Message (ListExists (str ''Milk''))), todo_and_milk, no_files)"
    by (simp add: Let_def todo_session_run m1 room s)
  with v v' l m1 todo_session_run show ?thesis by simp
qed

text \<open>
  C6 as stated fails twice over. With room for one list, \<open>milk\<close> is created and the
  second call, for \<open>Milk\<close>, is answered too-many-lists, not list-exists. And with
  room for fifty lists and names of fifty characters, a list named with twenty-six
  capital I with a dot above is created, and the second call, for the fifty-two
  code points of the lowercase form of that name, is answered with the message of
  the name-length validation.
\<close>

theorem create_at_capacity_counterexample:
  "fst (create_list sample_py \<lparr>config = one_list_config, lists = []\<rparr> no_files (str ''milk''))
     = Inr (Message (ListCreated (str ''milk''))) \<and>
   fst (snd (create_list sample_py \<lparr>config = one_list_config, lists = []\<rparr> no_files (str ''milk'')))
     = milk_only \<and>
   create_list sample_py milk_only no_files (str ''Milk'')
     = (Inr (Message (TooManyLists 1)), milk_only, no_files) \<and>
   str_lower sample_py dotted_smalls = str_lower sample_py dotted_capitals \<and>
   fst (create_list sample_py empty_manager no_files dotted_capitals)
     = Inr (Message (ListCreated dotted_capitals)) \<and>
   fst (snd (create_list sample_py empty_manager no_files dotted_capitals)) = dotted_only \<and>
   create_list sample_py dotted_only no_files dotted_smalls
     = (Inr (Message (InvalidListName 50)), dotted_only, no_files)"
proof -
  have a: "fst (create_list sample_py \<lparr>config = one_list_config, lists = []\<rparr> no_files (str ''milk''))
     = Inr (Message (ListCreated (str ''milk'')))"
    by code_simp
  have b: "fst (snd (create_list sample_py \<lparr>config = one_list_config, lists = []\<rparr> no_files (str ''milk'')))
     = milk_only"
    by code_simp
  have c: "create_list sample_py milk_only no_files (str ''Milk'')
     = (Inr (Message (TooManyLists 1)), milk_only, no_files)"
    by code_simp
  have d: "str_lower sample_py dotted_smalls = str_lower sample_py dotted_capitals"
    by code_simp
  have e: "fst (create_list sample_py empty_manager no_files dotted_capitals)
     = Inr (Message (ListCreated dotted_capitals))"
    by code_simp
  have f: "fst (snd (create_list sample_py empty_manager no_files dotted_capitals)) = dotted_only"
    by code_simp
  have g: "create_list sample_py dotted_only no_files dotted_smalls
     = (Inr (Message (InvalidListName 50)), dotted_only, no_files)"
    by code_simp
  from a b c d e f g show ?thesis by simp
qed

theorem remove_blank_item_witness:
  "find_list_name sample_py
     (lists (run sample_py \<lparr>config = default_config, lists = []\<rparr> todo_session))
     (str ''TODO'') = Some (str ''todo'') \<and>
   strip (str ''  '') = [] \<and>
   remove_item sample_py todo_manager no_files (str ''TODO'') (str ''  '')
     = (Inr (Message (ItemNotFound [] (str ''todo''))), todo_manager, no_files)"
proof -
  have f: "find_list_name sample_py
             (lists (run sample_py \<lparr>config = default_config, lists = []\<rparr> todo_session))
             (str ''TODO'') = Some (str ''todo'')"
    unfolding todo_session_run
    by (simp add: todo_manager_def sample_py_def sample_lower_def sample_lower_char_def str_def)
  have s: "strip (str ''  '') = []"
    by (simp add: strip_def py_isspace_def str_def)
  from remove_blank_item [OF f s, of no_files] f s show ?thesis
    by (simp add: todo_session_run)
qed

section \<open>Adding a batch\<close>

lemma add_loop_append:
  "add_loop cfg k (cs @ [c]) st = add_step cfg k c (add_loop cfg k cs st)"
  by (induction cs arbitrary: st) auto

lemma classify_prefix:
  "i < length p \<Longrightarrow> classify cfg xs (p @ [c]) i = classify cfg xs p i"
  by (simp add: classify_def nth_append)

lemma classify_last:
  "classify cfg xs (p @ [c]) (length p) =
     (if int (length c) > max_item_length cfg then Failed
      else if PStr c \<in> set xs \<or> c \<in> set p then Skipped else Added)"
  by (simp add: classify_def)

lemma picked_snoc:
  "picked cfg xs (p @ [c]) v =
     picked cfg xs p v @ (if classify cfg xs (p @ [c]) (length p) = v then [c] else [])"
proof -
  have "map (\<lambda>i. (p @ [c]) ! i) (filter (\<lambda>i. classify cfg xs (p @ [c]) i = v) [0..<length p])
          = map (\<lambda>i. p ! i) (filter (\<lambda>i. classify cfg xs p i = v) [0..<length p])"
  proof (rule map_cong)
    show "filter (\<lambda>i. classify cfg xs (p @ [c]) i = v) [0..<length p]
            = filter (\<lambda>i. classify cfg xs p i = v) [0..<length p]"
      by (rule filter_cong) (simp_all add: classify_prefix)
  next
    fix i
    assume "i \<in> set (filter (\<lambda>i. classify cfg xs p i = v) [0..<length p])"
    then show "(p @ [c]) ! i = p ! i" by (simp add: nth_append)
  qed
  then show ?thesis by (simp add: picked_def)
qed

lemma picked_Nil [simp]: "picked cfg xs [] v = []"
  by (simp add: picked_def)

lemma set_picked_Added:
  "set (picked cfg xs p Added)
     = {c \<in> set p. \<not> int (length c) > max_item_length cfg \<and> PStr c \<notin> set xs}"
  by (induction p rule: rev_induct) (auto simp: picked_snoc classify_last)


lemma validate_stripped_item:
  "c \<noteq> [] \<Longrightarrow> strip c = c \<Longrightarrow>
     validate_item cfg c =
       (if int (length c) > max_item_length cfg
        then Inl (ValidationError (InvalidItem (max_item_length cfg))) else Inr ())"
  by (simp add: validate_item_def)

lemma add_step_list:
  assumes "c \<noteq> []" and "strip c = c" and "map_of d k = Some (PList es)"
  shows "add_step cfg k c (d, a, s, f) =
           (if int (length c) > max_item_length cfg then (d, a, s, f @ [c @ (str '' (invalid)'')])
            else if PStr c \<in> set es then (d, a, s @ [c], f)
            else (dict_set d k (PList (es @ [PStr c])), a @ [c], s, f))"
  using assms by (simp add: add_step_def validate_stripped_item dict_get_def)

lemma add_loop_closed:
  assumes "map_of d k = Some (PList xs)"
    and "\<forall>c \<in> set cs. c \<noteq> [] \<and> strip c = c"
  shows "add_loop cfg k cs (d, [], [], []) =
           (if picked cfg xs cs Added = [] then d
            else dict_set d k (PList (xs @ map PStr (picked cfg xs cs Added))),
            picked cfg xs cs Added, picked cfg xs cs Skipped,
            map (\<lambda>c. c @ (str '' (invalid)'')) (picked cfg xs cs Failed))"
  using assms(2)
proof (induction cs rule: rev_induct)
  case Nil
  then show ?case by simp
next
  case (snoc c p)
  let ?A = "picked cfg xs p Added"
  let ?d = "if ?A = [] then d else dict_set d k (PList (xs @ map PStr ?A))"
  from snoc.prems have c: "c \<noteq> []" "strip c = c" by simp_all
  from snoc have IH: "add_loop cfg k p (d, [], [], []) =
      (?d, ?A, picked cfg xs p Skipped, map (\<lambda>c. c @ (str '' (invalid)'')) (picked cfg xs p Failed))"
    by simp
  from assms(1) have look: "map_of ?d k = Some (PList (xs @ map PStr ?A))"
    by (simp add: map_of_dict_set)
  have again: "dict_set ?d k v = dict_set d k v" for v
    by (simp add: dict_set_twice)
  have mem: "PStr c \<in> set (xs @ map PStr ?A) \<longleftrightarrow> PStr c \<in> set xs \<or> c \<in> set p"
    if "\<not> int (length c) > max_item_length cfg"
    using that by (auto simp: set_picked_Added)
  show ?case
  proof (cases "int (length c) > max_item_length cfg")
    case True
    then show ?thesis
      by (simp add: add_loop_append IH add_step_list [OF c look] picked_snoc classify_last)
  next
    case False
    show ?thesis
    proof (cases "PStr c \<in> set xs \<or> c \<in> set p")
      case True
      with False mem have "PStr c \<in> set (xs @ map PStr ?A)" by simp
      with False True show ?thesis
        by (simp add: add_loop_append IH add_step_list [OF c look] picked_snoc classify_last)
    next
      case nope: False
      with False mem have "PStr c \<notin> set (xs @ map PStr ?A)" by simp
      with False nope show ?thesis
        by (simp add: add_loop_append IH add_step_list [OF c look] picked_snoc classify_last
            again del: set_append)
    qed
  qed
qed


lemma picked_nonempty: "cs \<noteq> [] \<Longrightarrow> picked cfg xs cs (classify cfg xs cs 0) \<noteq> []"
proof -
  assume "cs \<noteq> []"
  then have "0 \<in> set (filter (\<lambda>i. classify cfg xs cs i = classify cfg xs cs 0) [0..<length cs])"
    by simp
  then have "filter (\<lambda>i. classify cfg xs cs i = classify cfg xs cs 0) [0..<length cs] \<noteq> []"
    by (metis empty_iff list.set(1))
  then show ?thesis by (simp add: picked_def)
qed

lemma some_verdict:
  assumes "cs \<noteq> []"
  shows "\<not> (picked cfg xs cs Added = [] \<and> picked cfg xs cs Skipped = [] \<and>
            map (\<lambda>c. c @ (str '' (invalid)'')) (picked cfg xs cs Failed) = [])"
  using picked_nonempty [OF assms, of cfg xs]
  by (cases "classify cfg xs cs 0") auto

lemma split_items_trim_then_discard:
  "split_items t = filter (\<lambda>piece. piece \<noteq> []) (map strip (split (44) t))"
  by (simp add: split_items_def filter_map comp_def)

lemma add_multiple_items_closed:
  assumes "find_list_name py (lists m) n = Some k" and "k \<noteq> []"
    and "map_of (lists m) k = Some (PList xs)"
    and "split_items t \<noteq> []"
    and "int (length xs) + int (length (split_items t)) \<le> max_items_per_list (config m)"
  shows "add_multiple_items py m fs n t =
          (let cs = split_items t;
               added = picked (config m) xs cs Added;
               skipped = picked (config m) xs cs Skipped;
               failed = map (\<lambda>c. c @ (str '' (invalid)'')) (picked (config m) xs cs Failed)
           in if added = [] then (Inr (Message (MultiReport k added skipped failed)), m, fs)
              else persist py (m\<lparr>lists := dict_set (lists m) k (PList (xs @ map PStr added))\<rparr>)
                     fs (MultiReport k added skipped failed) AddingMany)"
proof -
  let ?cs = "split_items t"
  have st: "\<forall>c \<in> set ?cs. c \<noteq> [] \<and> strip c = c"
    by (simp add: split_items_stripped)
  note loop = add_loop_closed [OF assms(3) st, of "config m"]
  note some = some_verdict [OF assms(4), of "config m" xs]
  show ?thesis
  proof (cases "picked (config m) xs ?cs Added = []")
    case True
    with assms loop some show ?thesis
      by (simp add: add_multiple_items_def add_multiple_items_try_def dict_get_def Let_def
          handle_def)
  next
    case False
    with assms loop show ?thesis
      by (simp add: add_multiple_items_def add_multiple_items_try_def dict_get_def Let_def
          handle_save)
  qed
qed

lemma aba_split: "split_items (str ''a, b, a'') = [(str ''a''), (str ''b''), (str ''a'')]"
  by (simp add: split_items_def strip_def py_isspace_def str_def)


lemma aba_picked:
  assumes "PStr (str ''a'') \<notin> set xs" and "PStr (str ''b'') \<notin> set xs" and "1 \<le> max_item_length cfg"
  shows "picked cfg xs [(str ''a''), (str ''b''), (str ''a'')] Added = [(str ''a''), (str ''b'')]"
    and "picked cfg xs [(str ''a''), (str ''b''), (str ''a'')] Skipped = [(str ''a'')]"
    and "picked cfg xs [(str ''a''), (str ''b''), (str ''a'')] Failed = []"
  using assms by (simp_all add: picked_def classify_def str_def)

text \<open>
  C7. The candidates are the pieces of the raw text between commas, trimmed, the empty
  ones discarded. Where the list exists and holds \<open>xs\<close>, there is at least one
  candidate and the capacity check passes, each candidate is handled on its own: one
  that fails validation, which for a candidate means it is too long, is reported
  failed, one equal to an item of \<open>xs\<close> or to an earlier candidate is reported
  skipped, every other one is appended, in order, and
  the collection is saved if anything was appended. For the text \<open>a, b, a\<close> and a
  list holding neither, \<open>a\<close> and \<open>b\<close> are appended once each, the second \<open>a\<close> is
  reported skipped, and the list is longer by exactly 2.
\<close>

theorem add_multiple_items_report:
  assumes "find_list_name py (lists m) n = Some k" and "k \<noteq> []"
    and "map_of (lists m) k = Some (PList xs)"
    and "split_items t \<noteq> []"
    and "int (length xs) + int (length (split_items t)) \<le> max_items_per_list (config m)"
  shows "split_items t = filter (\<lambda>piece. piece \<noteq> []) (map strip (split (44) t)) \<and>
         (\<forall>c \<in> set (split_items t).
            validate_item (config m) c =
              (if int (length c) > max_item_length (config m)
               then Inl (ValidationError (InvalidItem (max_item_length (config m))))
               else Inr ())) \<and>
         add_multiple_items py m fs n t =
          (let cs = split_items t;
               added = picked (config m) xs cs Added;
               skipped = picked (config m) xs cs Skipped;
               failed = map (\<lambda>c. c @ (str '' (invalid)'')) (picked (config m) xs cs Failed)
           in if added = [] then (Inr (Message (MultiReport k added skipped failed)), m, fs)
              else persist py (m\<lparr>lists := dict_set (lists m) k (PList (xs @ map PStr added))\<rparr>)
                     fs (MultiReport k added skipped failed) AddingMany) \<and>
         (t = (str ''a, b, a'') \<and> PStr (str ''a'') \<notin> set xs \<and> PStr (str ''b'') \<notin> set xs \<and>
          1 \<le> max_item_length (config m) \<longrightarrow>
            add_multiple_items py m fs n t =
              persist py (m\<lparr>lists := dict_set (lists m) k (PList (xs @ [PStr (str ''a''), PStr (str ''b'')]))\<rparr>)
                fs (MultiReport k [(str ''a''), (str ''b'')] [(str ''a'')] []) AddingMany \<and>
            length (xs @ [PStr (str ''a''), PStr (str ''b'')]) = length xs + 2)"
proof (intro conjI impI)
  show "split_items t = filter (\<lambda>piece. piece \<noteq> []) (map strip (split (44) t))"
    by (rule split_items_trim_then_discard)
next
  show "\<forall>c \<in> set (split_items t).
          validate_item (config m) c =
            (if int (length c) > max_item_length (config m)
             then Inl (ValidationError (InvalidItem (max_item_length (config m))))
             else Inr ())"
    using split_items_stripped [of _ t] by (blast intro: validate_stripped_item)
next
  show "add_multiple_items py m fs n t =
          (let cs = split_items t;
               added = picked (config m) xs cs Added;
               skipped = picked (config m) xs cs Skipped;
               failed = map (\<lambda>c. c @ (str '' (invalid)'')) (picked (config m) xs cs Failed)
           in if added = [] then (Inr (Message (MultiReport k added skipped failed)), m, fs)
              else persist py (m\<lparr>lists := dict_set (lists m) k (PList (xs @ map PStr added))\<rparr>)
                     fs (MultiReport k added skipped failed) AddingMany)"
    using assms by (rule add_multiple_items_closed)
next
  assume ex: "t = (str ''a, b, a'') \<and> PStr (str ''a'') \<notin> set xs \<and> PStr (str ''b'') \<notin> set xs \<and>
          1 \<le> max_item_length (config m)"
  then have cs: "split_items t = [(str ''a''), (str ''b''), (str ''a'')]" by (simp add: aba_split)
  from ex have p: "picked (config m) xs [(str ''a''), (str ''b''), (str ''a'')] Added = [(str ''a''), (str ''b'')]"
    "picked (config m) xs [(str ''a''), (str ''b''), (str ''a'')] Skipped = [(str ''a'')]"
    "picked (config m) xs [(str ''a''), (str ''b''), (str ''a'')] Failed = []"
    by (simp_all add: aba_picked)
  from add_multiple_items_closed [OF assms, of fs]
  show "add_multiple_items py m fs n t =
              persist py (m\<lparr>lists := dict_set (lists m) k (PList (xs @ [PStr (str ''a''), PStr (str ''b'')]))\<rparr>)
                fs (MultiReport k [(str ''a''), (str ''b'')] [(str ''a'')] []) AddingMany"
    by (simp add: cs p Let_def)
  show "length (xs @ [PStr (str ''a''), PStr (str ''b'')]) = length xs + 2" by simp
qed

theorem add_multiple_items_report_witness:
  "find_list_name sample_py (lists groceries) (str ''Groceries'') = Some (str ''groceries'') \<and>
   (str ''groceries'') \<noteq> [] \<and>
   map_of (lists groceries) (str ''groceries'') = Some (PList []) \<and>
   split_items (str ''a, b, a'') \<noteq> [] \<and>
   int (length ([] :: pyval list)) + int (length (split_items (str ''a, b, a'')))
     \<le> max_items_per_list (config groceries) \<and>
   PStr (str ''a'') \<notin> set [] \<and> PStr (str ''b'') \<notin> set [] \<and> 1 \<le> max_item_length (config groceries) \<and>
   add_multiple_items sample_py groceries no_files (str ''Groceries'') (str ''a, b, a'') =
     persist sample_py
       (groceries\<lparr>lists := [((str ''groceries''), PList [PStr (str ''a''), PStr (str ''b'')])]\<rparr>)
       no_files (MultiReport (str ''groceries'') [(str ''a''), (str ''b'')] [(str ''a'')] []) AddingMany"
proof -
  have f: "find_list_name sample_py (lists groceries) (str ''Groceries'') = Some (str ''groceries'')"
    by (simp add: groceries_def sample_py_def sample_lower_def sample_lower_char_def str_def)
  have k: "(str ''groceries'') \<noteq> []" by simp
  have v: "map_of (lists groceries) (str ''groceries'') = Some (PList [])"
    by (simp add: groceries_def)
  have s: "split_items (str ''a, b, a'') \<noteq> []" by (simp add: aba_split)
  have c: "int (length ([] :: pyval list)) + int (length (split_items (str ''a, b, a'')))
             \<le> max_items_per_list (config groceries)"
    by (simp add: aba_split groceries_def default_config_def)
  have i: "1 \<le> max_item_length (config groceries)"
    by (simp add: groceries_def default_config_def)
  have d: "dict_set (lists groceries) (str ''groceries'') (PList [PStr (str ''a''), PStr (str ''b'')])
             = [((str ''groceries''), PList [PStr (str ''a''), PStr (str ''b'')])]"
    by (simp add: groceries_def)
  from i have e: "(str ''a, b, a'') = (str ''a, b, a'') \<and> PStr (str ''a'') \<notin> set [] \<and> PStr (str ''b'') \<notin> set [] \<and>
      1 \<le> max_item_length (config groceries)"
    by simp
  from add_multiple_items_report
    [OF f k v s c, of no_files, THEN conjunct2, THEN conjunct2, THEN conjunct2,
      THEN mp, OF e]
  have "add_multiple_items sample_py groceries no_files (str ''Groceries'') (str ''a, b, a'') =
     persist sample_py
       (groceries\<lparr>lists := [((str ''groceries''), PList [PStr (str ''a''), PStr (str ''b'')])]\<rparr>)
       no_files (MultiReport (str ''groceries'') [(str ''a''), (str ''b'')] [(str ''a'')] []) AddingMany"
    by (simp add: d)
  with f k v s c i show ?thesis by simp
qed

end
